theory Spec2Isabelle
  imports Main "HOL-Library.Char_ord" "HOL-Library.List_Lexorder" "HOL-Library.Sublist"
    "HOL-Library.Word" "HOL-Library.AList"
begin

section \<open>Go strings\<close>

text \<open>
  A Go string is a sequence of bytes, here a \<open>string\<close> (a list of 8-bit characters).
  Comparison with \<open><\<close> is the lexicographic order on bytes, which is the order of
  \<open>HOL-Library.List_Lexorder\<close> over \<open>HOL-Library.Char_ord\<close>.
\<close>

text \<open>\<open>strings.HasPrefix\<close>, \<open>strings.HasSuffix\<close>, \<open>strings.TrimPrefix\<close>, \<open>strings.TrimSuffix\<close>.\<close>

definition HasPrefix :: "string \<Rightarrow> string \<Rightarrow> bool" where
  "HasPrefix s p = (take (length p) s = p)"

definition HasSuffix :: "string \<Rightarrow> string \<Rightarrow> bool" where
  "HasSuffix s p = (length p \<le> length s \<and> drop (length s - length p) s = p)"

definition TrimPrefix :: "string \<Rightarrow> string \<Rightarrow> string" where
  "TrimPrefix s p = (if HasPrefix s p then drop (length p) s else s)"

definition TrimSuffix :: "string \<Rightarrow> string \<Rightarrow> string" where
  "TrimSuffix s p = (if HasSuffix s p then take (length s - length p) s else s)"

text \<open>
  \<open>strings.Index s sep\<close>: the byte offset of the first occurrence of \<open>sep\<close> in \<open>s\<close>;
  Go's \<open>-1\<close> is \<open>None\<close>.
\<close>

fun Index :: "string \<Rightarrow> string \<Rightarrow> nat option" where
  "Index [] sep = (if sep = [] then Some 0 else None)"
| "Index (c # cs) sep =
     (if HasPrefix (c # cs) sep then Some 0
      else (case Index cs sep of None \<Rightarrow> None | Some i \<Rightarrow> Some (Suc i)))"

definition Contains :: "string \<Rightarrow> string \<Rightarrow> bool" where
  "Contains s sub = (Index s sub \<noteq> None)"

text \<open>
  \<open>strings.ToLower\<close> on the ASCII letters. Bytes from \<open>0x80\<close> on are left as they are (Go
  also lowers the letters beyond ASCII); no theorem below depends on which letters are
  lowered.
\<close>

definition lowerByte :: "char \<Rightarrow> char" where
  "lowerByte c =
     (if CHR ''A'' \<le> c \<and> c \<le> CHR ''Z'' then char_of (of_char c + (32::nat)) else c)"

definition ToLower :: "string \<Rightarrow> string" where
  "ToLower s = map lowerByte s"

text \<open>
  \<open>strings.EqualFold\<close> on the ASCII letters. Against the constant \<open>"No team"\<close>, which has
  neither \<open>k\<close> nor \<open>s\<close>, Unicode simple folding relates the same strings.
\<close>

definition EqualFold :: "string \<Rightarrow> string \<Rightarrow> bool" where
  "EqualFold s t = (ToLower s = ToLower t)"

text \<open>\<open>strings.ReplaceAll s "\\" "/"\<close>: the only replacement the code makes is of one byte.\<close>

definition backslashToSlash :: "string \<Rightarrow> string" where
  "backslashToSlash s = map (\<lambda>c. if c = CHR 0x5C then CHR ''/'' else c) s"

text \<open>
  \<open>strings.TrimSpace\<close> removes the leading and trailing runes for which
  \<open>unicode.IsSpace\<close> holds. On the bytes of a string the leading rune is a space exactly
  when the string starts with the UTF-8 encoding of one of the White_Space code points
  (U+0009 to U+000D, U+0020, U+0085, U+00A0, U+1680, U+2000 to U+200A, U+2028, U+2029,
  U+202F, U+205F, U+3000), and likewise for the trailing rune.
\<close>

definition spaceRunes :: "string list" where
  "spaceRunes =
     [[CHR 0x09], [CHR 0x0A], [CHR 0x0B], [CHR 0x0C], [CHR 0x0D], [CHR 0x20],
      [CHR 0xC2, CHR 0x85], [CHR 0xC2, CHR 0xA0], [CHR 0xE1, CHR 0x9A, CHR 0x80],
      [CHR 0xE2, CHR 0x80, CHR 0x80], [CHR 0xE2, CHR 0x80, CHR 0x81],
      [CHR 0xE2, CHR 0x80, CHR 0x82], [CHR 0xE2, CHR 0x80, CHR 0x83],
      [CHR 0xE2, CHR 0x80, CHR 0x84], [CHR 0xE2, CHR 0x80, CHR 0x85],
      [CHR 0xE2, CHR 0x80, CHR 0x86], [CHR 0xE2, CHR 0x80, CHR 0x87],
      [CHR 0xE2, CHR 0x80, CHR 0x88], [CHR 0xE2, CHR 0x80, CHR 0x89],
      [CHR 0xE2, CHR 0x80, CHR 0x8A], [CHR 0xE2, CHR 0x80, CHR 0xA8],
      [CHR 0xE2, CHR 0x80, CHR 0xA9], [CHR 0xE2, CHR 0x80, CHR 0xAF],
      [CHR 0xE2, CHR 0x81, CHR 0x9F], [CHR 0xE3, CHR 0x80, CHR 0x80]]"

text \<open>The width in bytes of the leading rune of \<open>s\<close> if it is one of \<open>rs\<close>, else 0.\<close>

definition leadWidth :: "string list \<Rightarrow> string \<Rightarrow> nat" where
  "leadWidth rs s = (case filter (\<lambda>e. prefix e s) rs of [] \<Rightarrow> 0 | e # _ \<Rightarrow> length e)"

function trimLeftRunes :: "string list \<Rightarrow> string \<Rightarrow> string" where
  "trimLeftRunes rs s =
     (if leadWidth rs s = 0 then s else trimLeftRunes rs (drop (leadWidth rs s) s))"
  by pat_completeness auto

termination trimLeftRunes
proof (relation "measure (\<lambda>(rs, s). length s)")
  show "wf (measure (\<lambda>(rs, s). length s))" by simp
next
  fix rs :: "string list" and s :: string
  assume nz: "leadWidth rs s \<noteq> 0"
  have "\<And>e es. filter (\<lambda>e. prefix e s) rs = e # es \<Longrightarrow> length e \<le> length s"
  proof -
    fix e es
    assume "filter (\<lambda>e. prefix e s) rs = e # es"
    then have "e \<in> set (filter (\<lambda>e. prefix e s) rs)" by simp
    then show "length e \<le> length s" by (simp add: prefix_length_le)
  qed
  then have "leadWidth rs s \<le> length s"
    by (simp add: leadWidth_def split: list.split)
  with nz show "((rs, drop (leadWidth rs s) s), (rs, s)) \<in> measure (\<lambda>(rs, s). length s)"
    by simp
qed

definition TrimLeftSpace :: "string \<Rightarrow> string" where
  "TrimLeftSpace s = trimLeftRunes spaceRunes s"

definition TrimRightSpace :: "string \<Rightarrow> string" where
  "TrimRightSpace s = rev (trimLeftRunes (map rev spaceRunes) (rev s))"

definition TrimSpace :: "string \<Rightarrow> string" where
  "TrimSpace s = TrimRightSpace (TrimLeftSpace s)"

text \<open>
  The regular expression \<open>\s+\<close> of Go's \<open>regexp\<close> (RE2 syntax): \<open>\s\<close> is the class
  \<open>[\t\n\f\r ]\<close>, which has no vertical tab and no rune beyond ASCII.
\<close>

definition reSpace :: "char \<Rightarrow> bool" where
  "reSpace c = (c \<in> set [CHR 0x09, CHR 0x0A, CHR 0x0C, CHR 0x0D, CHR 0x20])"

text \<open>\<open>wsRE.ReplaceAllString(s, " ")\<close>: every maximal run of \<open>\s\<close> bytes becomes one space.\<close>

function replaceWsRuns :: "string \<Rightarrow> string" where
  "replaceWsRuns [] = []"
| "replaceWsRuns (c # cs) =
     (if reSpace c then CHR 0x20 # replaceWsRuns (dropWhile reSpace cs)
      else c # replaceWsRuns cs)"
  by pat_completeness auto
termination
  by (relation "measure length") (auto simp: length_dropWhile_le less_Suc_eq_le)

text \<open>
  \<open>fmt.Sprint\<close> of a \<open>bool\<close> and of an unsigned integer (decimal digits).
\<close>

definition sprintBool :: "bool \<Rightarrow> string" where
  "sprintBool b = (if b then ''true'' else ''false'')"

definition digitChar :: "nat \<Rightarrow> char" where
  "digitChar d = char_of (48 + d)"

function sprintNat :: "nat \<Rightarrow> string" where
  "sprintNat n = (if n < 10 then [digitChar n] else sprintNat (n div 10) @ [digitChar (n mod 10)])"
  by pat_completeness auto
termination
  by (relation "measure id") auto

definition sprintUint :: "64 word \<Rightarrow> string" where
  "sprintUint w = sprintNat (unat w)"

section \<open>The diff engine (internal/diff/differ.go)\<close>

subsection \<open>Remote state (package api)\<close>

text \<open>Go's \<open>uint\<close> is a 64-bit word; addition wraps.\<close>

record Policy =
  Policy_ID :: "64 word"
  Policy_Name :: string
  Policy_Query :: string
  Policy_Description :: string
  Policy_Resolution :: string
  Policy_Platform :: string
  Policy_Critical :: bool
  Policy_PassingHostCount :: "64 word"
  Policy_FailingHostCount :: "64 word"
  Policy_LabelsIncludeAny :: "string list"
  Policy_LabelsExcludeAny :: "string list"

record Query =
  Query_ID :: "64 word"
  Query_Name :: string
  Query_Query :: string
  Query_Interval :: "64 word"
  Query_Platform :: string
  Query_Logging :: string

record Profile =
  Profile_ProfileUUID :: string
  Profile_Name :: string
  Profile_Platform :: string

subsection \<open>Proposed state (package parser)\<close>

record ParsedPolicy =
  ParsedPolicy_Name :: string
  ParsedPolicy_Description :: string
  ParsedPolicy_Resolution :: string
  ParsedPolicy_Query :: string
  ParsedPolicy_Platform :: string
  ParsedPolicy_Critical :: bool
  ParsedPolicy_LabelsIncludeAny :: "string list"
  ParsedPolicy_LabelsExcludeAny :: "string list"
  ParsedPolicy_SourceFile :: string

record ParsedQuery =
  ParsedQuery_Name :: string
  ParsedQuery_Query :: string
  ParsedQuery_Interval :: "64 word"
  ParsedQuery_Platform :: string
  ParsedQuery_Logging :: string
  ParsedQuery_SourceFile :: string

record ParsedProfile =
  ParsedProfile_Path :: string
  ParsedProfile_Name :: string
  ParsedProfile_Platform :: string
  ParsedProfile_SourceFile :: string

subsection \<open>Result types\<close>

record FieldDiff =
  Old :: string
  New :: string

text \<open>
  \<open>Fields\<close> is a Go \<open>map[string]FieldDiff\<close>. Each key is assigned at most once while a
  map is built, so the map is the list of its entries in the order of assignment; a key
  is looked up with \<open>map_of\<close> and \<open>len(fields) > 0\<close> is \<open>fields \<noteq> []\<close>.
\<close>

record ResourceChange =
  Name :: string
  Fields :: "(string \<times> FieldDiff) list"
  HostCount :: "64 word"
  Warning :: string

record ResourceDiff =
  Added :: "ResourceChange list"
  Modified :: "ResourceChange list"
  Deleted :: "ResourceChange list"

text \<open>The zero values \<open>ResourceDiff{}\<close> and \<open>ResourceChange{Name: n}\<close>.\<close>

definition emptyDiff :: ResourceDiff where
  "emptyDiff = \<lparr>Added = [], Modified = [], Deleted = []\<rparr>"

definition change :: "string \<Rightarrow> (string \<times> FieldDiff) list \<Rightarrow> ResourceChange" where
  "change n fs = \<lparr>Name = n, Fields = fs, HostCount = 0, Warning = []\<rparr>"

definition newField :: "string \<Rightarrow> FieldDiff" where
  "newField v = \<lparr>Old = [], New = v\<rparr>"

subsection \<open>normalizeWS\<close>

definition normalizeWS :: "string \<Rightarrow> string" where
  "normalizeWS s = TrimSpace (replaceWsRuns s)"

subsection \<open>diffPolicies\<close>

text \<open>\<open>currentMap\<close>: a later remote item of the same name overwrites an earlier one.\<close>

definition policyIndex :: "Policy list \<Rightarrow> (string \<rightharpoonup> Policy)" where
  "policyIndex current = foldl (\<lambda>m p. m(Policy_Name p \<mapsto> p)) Map.empty current"

definition addedPolicyFields :: "ParsedPolicy \<Rightarrow> (string \<times> FieldDiff) list" where
  "addedPolicyFields p =
     [(''query'', newField (normalizeWS (ParsedPolicy_Query p))),
      (''platform'', newField (ParsedPolicy_Platform p)),
      (''critical'', newField (sprintBool (ParsedPolicy_Critical p)))]
     @ (if ParsedPolicy_Description p \<noteq> []
        then [(''description'', newField (normalizeWS (ParsedPolicy_Description p)))] else [])
     @ (if ParsedPolicy_Resolution p \<noteq> []
        then [(''resolution'', newField (normalizeWS (ParsedPolicy_Resolution p)))] else [])"

definition modifiedPolicyFields :: "Policy \<Rightarrow> ParsedPolicy \<Rightarrow> (string \<times> FieldDiff) list" where
  "modifiedPolicyFields cur p =
     (if normalizeWS (Policy_Query cur) \<noteq> normalizeWS (ParsedPolicy_Query p)
      then [(''query'', \<lparr>Old = normalizeWS (Policy_Query cur),
                         New = normalizeWS (ParsedPolicy_Query p)\<rparr>)] else [])
     @ (if normalizeWS (Policy_Description cur) \<noteq> normalizeWS (ParsedPolicy_Description p)
        then [(''description'', \<lparr>Old = normalizeWS (Policy_Description cur),
                                 New = normalizeWS (ParsedPolicy_Description p)\<rparr>)] else [])
     @ (if normalizeWS (Policy_Resolution cur) \<noteq> normalizeWS (ParsedPolicy_Resolution p)
        then [(''resolution'', \<lparr>Old = normalizeWS (Policy_Resolution cur),
                                New = normalizeWS (ParsedPolicy_Resolution p)\<rparr>)] else [])
     @ (if Policy_Platform cur \<noteq> ParsedPolicy_Platform p
        then [(''platform'', \<lparr>Old = Policy_Platform cur, New = ParsedPolicy_Platform p\<rparr>)]
        else [])
     @ (if Policy_Critical cur \<noteq> ParsedPolicy_Critical p
        then [(''critical'', \<lparr>Old = sprintBool (Policy_Critical cur),
                              New = sprintBool (ParsedPolicy_Critical p)\<rparr>)] else [])"

text \<open>One iteration of the loop over \<open>proposed\<close>.\<close>

definition policyStep :: "(string \<rightharpoonup> Policy) \<Rightarrow> ResourceDiff \<Rightarrow> ParsedPolicy \<Rightarrow> ResourceDiff" where
  "policyStep currentMap diff p =
     (case currentMap (ParsedPolicy_Name p) of
        None \<Rightarrow> diff\<lparr>Added := Added diff @ [change (ParsedPolicy_Name p) (addedPolicyFields p)]\<rparr>
      | Some cur \<Rightarrow>
          (let fields = modifiedPolicyFields cur p in
           if fields \<noteq> []
           then diff\<lparr>Modified := Modified diff @
                  [\<lparr>Name = ParsedPolicy_Name p, Fields = fields,
                    HostCount = Policy_PassingHostCount cur + Policy_FailingHostCount cur,
                    Warning = []\<rparr>]\<rparr>
           else diff))"

text \<open>One iteration of the loop over \<open>current\<close> that collects the deletions.\<close>

definition policyDeleteStep :: "string list \<Rightarrow> ResourceDiff \<Rightarrow> Policy \<Rightarrow> ResourceDiff" where
  "policyDeleteStep proposedNames diff cur =
     (if Policy_Name cur \<notin> set proposedNames
      then (let hostCount = Policy_PassingHostCount cur + Policy_FailingHostCount cur;
                warning = (if hostCount > 0
                           then ''will delete policy affecting '' @ sprintUint hostCount @ '' hosts''
                           else [])
            in diff\<lparr>Deleted := Deleted diff @
                 [\<lparr>Name = Policy_Name cur, Fields = [], HostCount = hostCount,
                   Warning = warning\<rparr>]\<rparr>)
      else diff)"

definition diffPolicies :: "Policy list \<Rightarrow> ParsedPolicy list \<Rightarrow> ResourceDiff" where
  "diffPolicies current proposed =
     foldl (policyDeleteStep (map ParsedPolicy_Name proposed))
       (foldl (policyStep (policyIndex current)) emptyDiff proposed) current"

subsection \<open>diffQueries\<close>

definition queryIndex :: "Query list \<Rightarrow> (string \<rightharpoonup> Query)" where
  "queryIndex current = foldl (\<lambda>m q. m(Query_Name q \<mapsto> q)) Map.empty current"

definition addedQueryFields :: "ParsedQuery \<Rightarrow> (string \<times> FieldDiff) list" where
  "addedQueryFields q =
     [(''query'', newField (normalizeWS (ParsedQuery_Query q))),
      (''interval'', newField (sprintUint (ParsedQuery_Interval q))),
      (''platform'', newField (ParsedQuery_Platform q))]
     @ (if ParsedQuery_Logging q \<noteq> [] then [(''logging'', newField (ParsedQuery_Logging q))]
        else [])"

definition modifiedQueryFields :: "Query \<Rightarrow> ParsedQuery \<Rightarrow> (string \<times> FieldDiff) list" where
  "modifiedQueryFields cur q =
     (if normalizeWS (Query_Query cur) \<noteq> normalizeWS (ParsedQuery_Query q)
      then [(''query'', \<lparr>Old = normalizeWS (Query_Query cur),
                         New = normalizeWS (ParsedQuery_Query q)\<rparr>)] else [])
     @ (if Query_Interval cur \<noteq> ParsedQuery_Interval q
        then [(''interval'', \<lparr>Old = sprintUint (Query_Interval cur),
                              New = sprintUint (ParsedQuery_Interval q)\<rparr>)] else [])
     @ (if Query_Platform cur \<noteq> ParsedQuery_Platform q
        then [(''platform'', \<lparr>Old = Query_Platform cur, New = ParsedQuery_Platform q\<rparr>)]
        else [])
     @ (if Query_Logging cur \<noteq> ParsedQuery_Logging q \<and> ParsedQuery_Logging q \<noteq> []
        then [(''logging'', \<lparr>Old = Query_Logging cur, New = ParsedQuery_Logging q\<rparr>)]
        else [])"

definition queryStep :: "(string \<rightharpoonup> Query) \<Rightarrow> ResourceDiff \<Rightarrow> ParsedQuery \<Rightarrow> ResourceDiff" where
  "queryStep currentMap diff q =
     (case currentMap (ParsedQuery_Name q) of
        None \<Rightarrow> diff\<lparr>Added := Added diff @ [change (ParsedQuery_Name q) (addedQueryFields q)]\<rparr>
      | Some cur \<Rightarrow>
          (let fields = modifiedQueryFields cur q in
           if fields \<noteq> []
           then diff\<lparr>Modified := Modified diff @ [change (ParsedQuery_Name q) fields]\<rparr>
           else diff))"

definition queryDeleteStep :: "string list \<Rightarrow> ResourceDiff \<Rightarrow> Query \<Rightarrow> ResourceDiff" where
  "queryDeleteStep proposedNames diff cur =
     (if Query_Name cur \<notin> set proposedNames
      then diff\<lparr>Deleted := Deleted diff @ [change (Query_Name cur) []]\<rparr>
      else diff)"

definition diffQueries :: "Query list \<Rightarrow> ParsedQuery list \<Rightarrow> ResourceDiff" where
  "diffQueries current proposed =
     foldl (queryDeleteStep (map ParsedQuery_Name proposed))
       (foldl (queryStep (queryIndex current)) emptyDiff proposed) current"

subsection \<open>diffProfiles\<close>

text \<open>
  The messages of \<open>DiffResult.Errors\<close>, one constructor for each format string of the
  package:
  \<^item> \<open>NoTeamCounts p q\<close>: \<open>"%d policies, %d queries configured (no API diff available for
    \"No team\")"\<close>;
  \<^item> \<open>InfoTeamMissing name\<close>: \<open>"info: team %q does not exist in Fleet yet (will be
    created)"\<close>;
  \<^item> \<open>DuplicateProfile name path\<close>: \<open>"duplicate profile name %q derived from %q (conflicts
    with another profile)"\<close>.
\<close>

datatype message =
    NoTeamCounts nat nat
  | InfoTeamMissing string
  | DuplicateProfile string string

definition profileIndex :: "Profile list \<Rightarrow> (string \<rightharpoonup> Profile)" where
  "profileIndex current = foldl (\<lambda>m p. m(Profile_Name p \<mapsto> p)) Map.empty current"

text \<open>
  The loop over \<open>proposed\<close> carries the diff, the warnings and the names seen so far
  (\<open>proposedNames\<close>).
\<close>

definition profileStep ::
  "(string \<rightharpoonup> Profile) \<Rightarrow> ResourceDiff \<times> message list \<times> string list \<Rightarrow> ParsedProfile
   \<Rightarrow> ResourceDiff \<times> message list \<times> string list" where
  "profileStep currentMap st p =
     (case st of (diff, warnings, proposedNames) \<Rightarrow>
        (let name = ParsedProfile_Name p;
             warnings' = (if name \<in> set proposedNames
                          then warnings @ [DuplicateProfile name (ParsedProfile_Path p)]
                          else warnings);
             diff' = (case currentMap name of
                        None \<Rightarrow>
                          diff\<lparr>Added := Added diff @
                            [change name
                               ([(''platform'', newField (ParsedProfile_Platform p))]
                                @ (if ParsedProfile_Path p \<noteq> []
                                   then [(''path'', newField (ParsedProfile_Path p))] else []))]\<rparr>
                      | Some _ \<Rightarrow> diff)
         in (diff', warnings', proposedNames @ [name])))"

definition profileDeleteStep :: "string list \<Rightarrow> ResourceDiff \<Rightarrow> Profile \<Rightarrow> ResourceDiff" where
  "profileDeleteStep proposedNames diff cur =
     (if Profile_Name cur \<notin> set proposedNames
      then diff\<lparr>Deleted := Deleted diff @ [change (Profile_Name cur) []]\<rparr>
      else diff)"

definition diffProfiles :: "Profile list \<Rightarrow> ParsedProfile list \<Rightarrow> ResourceDiff \<times> message list" where
  "diffProfiles current proposed =
     (case foldl (profileStep (profileIndex current)) (emptyDiff, [], []) proposed of
        (diff, warnings, proposedNames) \<Rightarrow>
          (foldl (profileDeleteStep proposedNames) diff current, warnings))"

subsection \<open>Key sets and composite literals\<close>

text \<open>
  The identity keys of a bucket, and the composite literals \<open>Policy{Name: n, Query: q}\<close>
  and \<open>ParsedPolicy{Name: n, Query: q}\<close> with every other field at its zero value.
\<close>

definition keysOf :: "ResourceChange list \<Rightarrow> string set" where
  "keysOf cs = Name ` set cs"

definition policyLit :: "string \<Rightarrow> string \<Rightarrow> Policy" where
  "policyLit n q = \<lparr>Policy_ID = 0, Policy_Name = n, Policy_Query = q, Policy_Description = [],
     Policy_Resolution = [], Policy_Platform = [], Policy_Critical = False,
     Policy_PassingHostCount = 0, Policy_FailingHostCount = 0, Policy_LabelsIncludeAny = [],
     Policy_LabelsExcludeAny = []\<rparr>"

definition parsedPolicyLit :: "string \<Rightarrow> string \<Rightarrow> ParsedPolicy" where
  "parsedPolicyLit n q = \<lparr>ParsedPolicy_Name = n, ParsedPolicy_Description = [],
     ParsedPolicy_Resolution = [], ParsedPolicy_Query = q, ParsedPolicy_Platform = [],
     ParsedPolicy_Critical = False, ParsedPolicy_LabelsIncludeAny = [],
     ParsedPolicy_LabelsExcludeAny = [], ParsedPolicy_SourceFile = []\<rparr>"

subsection \<open>Texts up to whitespace\<close>

text \<open>
  The words of a text: its maximal runs of bytes outside the class \<open>\s\<close>. Two texts
  differ only in their whitespace runs (interior, leading or trailing) when they have the
  same words. \<open>joinSp\<close> joins words with single spaces; \<open>padded x y\<close> says that \<open>x\<close> is
  \<open>y\<close> with at most one space added at each end.
\<close>

function wsWords :: "string \<Rightarrow> string list" where
  "wsWords s =
     (case dropWhile reSpace s of
        [] \<Rightarrow> []
      | c # cs \<Rightarrow> (c # takeWhile (\<lambda>x. \<not> reSpace x) cs) # wsWords (dropWhile (\<lambda>x. \<not> reSpace x) cs))"
  by pat_completeness auto

termination
proof (relation "measure length")
  show "wf (measure length)" by simp
next
  fix s :: string and c cs
  assume a: "dropWhile reSpace s = c # cs"
  have "length (dropWhile (\<lambda>x. \<not> reSpace x) cs) \<le> length cs" by (rule length_dropWhile_le)
  moreover have "length (c # cs) \<le> length s" using a length_dropWhile_le [of reSpace s] by simp
  ultimately show "(dropWhile (\<lambda>x. \<not> reSpace x) cs, s) \<in> measure length" by simp
qed

fun joinSp :: "string list \<Rightarrow> string" where
  "joinSp [] = []"
| "joinSp [w] = w"
| "joinSp (w # v # ws) = w @ CHR 0x20 # joinSp (v # ws)"

declare wsWords.simps [simp del] trimLeftRunes.simps [simp del]

definition padded :: "string \<Rightarrow> string \<Rightarrow> bool" where
  "padded x y \<longleftrightarrow> (\<exists>l t. l \<in> {[], [CHR 0x20]} \<and> t \<in> {[], [CHR 0x20]} \<and> x = l @ y @ t)"

text \<open>
  A text whose only \<open>\s\<close> bytes are single spaces, each followed by a byte that is not
  \<open>\s\<close> or by the end of the text.
\<close>

fun wsIsolated :: "string \<Rightarrow> bool" where
  "wsIsolated [] = True"
| "wsIsolated (c # cs) =
     ((reSpace c \<longrightarrow> c = CHR 0x20 \<and> (cs = [] \<or> \<not> reSpace (hd cs))) \<and> wsIsolated cs)"

text \<open>
  The free-text fields of a field diff, and the field diffs whose stored free-text
  values, old and new, are left unchanged by \<open>normalizeWS\<close>.
\<close>

definition freeTextKeys :: "string set" where
  "freeTextKeys = {''query'', ''description'', ''resolution''}"

definition storedNormalized :: "(string \<times> FieldDiff) list \<Rightarrow> bool" where
  "storedNormalized fs \<longleftrightarrow>
     (\<forall>(k, fd) \<in> set fs. k \<in> freeTextKeys \<longrightarrow>
        normalizeWS (Old fd) = Old fd \<and> normalizeWS (New fd) = New fd)"

text \<open>The composite literals \<open>Query{Name: n, Query: q}\<close> and \<open>ParsedQuery{Name: n, Query: q}\<close>.\<close>

definition queryLit :: "string \<Rightarrow> string \<Rightarrow> Query" where
  "queryLit n q = \<lparr>Query_ID = 0, Query_Name = n, Query_Query = q, Query_Interval = 0,
     Query_Platform = [], Query_Logging = []\<rparr>"

definition parsedQueryLit :: "string \<Rightarrow> string \<Rightarrow> ParsedQuery" where
  "parsedQueryLit n q = \<lparr>ParsedQuery_Name = n, ParsedQuery_Query = q, ParsedQuery_Interval = 0,
     ParsedQuery_Platform = [], ParsedQuery_Logging = [], ParsedQuery_SourceFile = []\<rparr>"

subsection \<open>Software, teams and the remote snapshot\<close>

record TeamSoftwarePackage =
  TeamSoftwarePackage_URL :: string
  TeamSoftwarePackage_HashSHA256 :: string
  TeamSoftwarePackage_SelfService :: bool
  TeamSoftwarePackage_ReferencedYAMLPath :: string

record TeamFleetApp =
  TeamFleetApp_Slug :: string
  TeamFleetApp_SelfService :: bool

record TeamAppStoreApp =
  TeamAppStoreApp_AppStoreID :: string
  TeamAppStoreApp_SelfService :: bool

text \<open>
  The code tells a \<open>nil\<close> list of fleet-maintained apps (JSON \<open>null\<close>) from an empty one, so
  this field is an option, \<open>None\<close> for \<open>nil\<close>. Every other slice is only measured and
  ranged over and is a list.
\<close>

record TeamSoftware =
  TeamSoftware_Packages :: "TeamSoftwarePackage list"
  TeamSoftware_FleetMaintained :: "TeamFleetApp list option"
  TeamSoftware_AppStoreApps :: "TeamAppStoreApp list"

record FleetMaintainedApp =
  FleetMaintainedApp_ID :: "64 word"
  FleetMaintainedApp_SoftwareTitleID :: "64 word"
  FleetMaintainedApp_Slug :: string
  FleetMaintainedApp_Name :: string
  FleetMaintainedApp_Platform :: string

record SoftwareTitleAppStore =
  SoftwareTitleAppStore_AppStoreID :: string
  SoftwareTitleAppStore_SelfService :: bool
  SoftwareTitleAppStore_Platform :: string

record SoftwareTitlePackageMeta =
  SoftwareTitlePackageMeta_Name :: string
  SoftwareTitlePackageMeta_PackageURL :: string
  SoftwareTitlePackageMeta_SelfService :: bool
  SoftwareTitlePackageMeta_Platform :: string

record SoftwareTitle =
  SoftwareTitle_ID :: "64 word"
  SoftwareTitle_Name :: string
  SoftwareTitle_Source :: string
  SoftwareTitle_HostCount :: "64 word"
  SoftwareTitle_AppStoreApp :: "SoftwareTitleAppStore option"
  SoftwareTitle_SoftwarePackage :: "SoftwareTitlePackageMeta option"

record Label =
  Label_ID :: "64 word"
  Label_Name :: string
  Label_Query :: string
  Label_Platform :: string
  Label_HostCount :: "64 word"

record Team =
  Team_ID :: "64 word"
  Team_Name :: string
  Team_Software :: TeamSoftware
  Team_Policies :: "Policy list"
  Team_Queries :: "Query list"
  Team_Profiles :: "Profile list"
  Team_SoftwareTitles :: "SoftwareTitle list"

text \<open>
  A value of Go's \<open>any\<close> in a configuration tree: a \<open>map[string]any\<close> (a list of entries
  with distinct keys), or any other value, given by what \<open>fmt.Sprint\<close> prints for it.
\<close>

datatype anyval = AMap "(string \<times> anyval) list" | AVal string

record FleetState =
  FleetState_Teams :: "Team list"
  FleetState_Labels :: "Label list"
  FleetState_FleetMaintainedCatalog :: "FleetMaintainedApp list"
  FleetState_Config :: "(string \<times> anyval) list option"
  FleetState_GlobalPolicies :: "Policy list"
  FleetState_GlobalQueries :: "Query list"

record ParsedSoftwarePackage =
  ParsedSoftwarePackage_URL :: string
  ParsedSoftwarePackage_HashSHA256 :: string
  ParsedSoftwarePackage_SelfService :: bool
  ParsedSoftwarePackage_SourceFile :: string
  ParsedSoftwarePackage_RefPath :: string

record ParsedFleetApp =
  ParsedFleetApp_Slug :: string
  ParsedFleetApp_SelfService :: bool

record ParsedAppStoreApp =
  ParsedAppStoreApp_AppStoreID :: string
  ParsedAppStoreApp_SelfService :: bool

record ParsedSoftware =
  ParsedSoftware_Packages :: "ParsedSoftwarePackage list"
  ParsedSoftware_FleetMaintained :: "ParsedFleetApp list"
  ParsedSoftware_AppStoreApps :: "ParsedAppStoreApp list"

record ParsedLabel =
  ParsedLabel_Name :: string
  ParsedLabel_Description :: string
  ParsedLabel_Query :: string
  ParsedLabel_Platform :: string
  ParsedLabel_LabelMembershipType :: string
  ParsedLabel_SourceFile :: string

record ParsedTeam =
  ParsedTeam_Name :: string
  ParsedTeam_Policies :: "ParsedPolicy list"
  ParsedTeam_Queries :: "ParsedQuery list"
  ParsedTeam_Software :: ParsedSoftware
  ParsedTeam_Profiles :: "ParsedProfile list"
  ParsedTeam_SourceFile :: string

record ParsedGlobal =
  ParsedGlobal_OrgSettings :: "(string \<times> anyval) list option"
  ParsedGlobal_AgentOptions :: "(string \<times> anyval) list option"
  ParsedGlobal_Controls :: "(string \<times> anyval) list option"
  ParsedGlobal_Policies :: "ParsedPolicy list"
  ParsedGlobal_Queries :: "ParsedQuery list"
  ParsedGlobal_SourceFile :: string

text \<open>
  The messages of \<open>ParseError\<close>, one constructor for each format string of the parser:
  \<^item> \<open>TeamsDirNotFound\<close>: \<open>"teams/ directory not found. Are you in a fleet-gitops repo?"\<close>;
  \<^item> \<open>CouldNotRead\<close>: \<open>"could not read: %s"\<close>;
  \<^item> \<open>InvalidYAML\<close>: \<open>"invalid YAML: %s"\<close>;
  \<^item> \<open>YAMLParseError\<close>: \<open>"YAML parse error: %s"\<close>;
  \<^item> \<open>UnknownTopLevelKey key\<close>: \<open>"unknown top-level key: %q"\<close>;
  \<^item> \<open>MissingName\<close>: \<open>"missing required 'name' field"\<close>;
  \<^item> \<open>DuplicateSoftwareRef ref\<close>: \<open>"duplicate software package reference: %q"\<close>;
  \<^item> \<open>PathEscape resolved root\<close>: \<open>"path %q escapes repository root %q"\<close>;
  \<^item> \<open>ResolvingRoot\<close> and \<open>ResolvingPath\<close>: \<open>"resolving repo root: %w"\<close> and
    \<open>"resolving path: %w"\<close>;
  \<^item> \<open>EmptyRef label\<close>: \<open>"empty %spath: reference"\<close>;
  \<^item> \<open>RefReadError label ref\<close>: \<open>"%spath reference %q: %s"\<close>.
  The text of the operating system's or the YAML library's error is left out.
\<close>

datatype parse_message =
    TeamsDirNotFound
  | CouldNotRead
  | InvalidYAML
  | YAMLParseError
  | UnknownTopLevelKey string
  | MissingName
  | DuplicateSoftwareRef string
  | PathEscape string string
  | ResolvingRoot
  | ResolvingPath
  | EmptyRef string
  | RefReadError string string

record ParseError =
  ParseError_File :: string
  ParseError_Line :: int
  ParseError_Message :: parse_message

record ParsedRepo =
  ParsedRepo_Teams :: "ParsedTeam list"
  ParsedRepo_Labels :: "ParsedLabel list"
  ParsedRepo_Global :: "ParsedGlobal option"
  ParsedRepo_Errors :: "ParseError list"

subsection \<open>DiffResult\<close>

record LabelRef =
  LabelRef_Name :: string
  LabelRef_HostCount :: "64 word"
  LabelRef_ReferencedBy :: string

record LabelValidation =
  Valid :: "LabelRef list"
  Missing :: "LabelRef list"

record ConfigChange =
  ConfigChange_Section :: string
  ConfigChange_Key :: string
  ConfigChange_Old :: string
  ConfigChange_New :: string

record DiffResult =
  Team :: string
  Policies :: ResourceDiff
  Queries :: ResourceDiff
  Software :: ResourceDiff
  Profiles :: ResourceDiff
  Labels :: LabelValidation
  Config :: "ConfigChange list"
  Errors :: "message list"

text \<open>The zero value \<open>DiffResult{Team: name}\<close>.\<close>

definition emptyResult :: "string \<Rightarrow> DiffResult" where
  "emptyResult name =
     \<lparr>Team = name, Policies = emptyDiff, Queries = emptyDiff, Software = emptyDiff,
      Profiles = emptyDiff, Labels = \<lparr>Valid = [], Missing = []\<rparr>, Config = [], Errors = []\<rparr>"

subsection \<open>diffSoftware\<close>

function stripDotDot :: "string \<Rightarrow> string" where
  "stripDotDot s = (if HasPrefix s ''../'' then stripDotDot (TrimPrefix s ''../'') else s)"
  by pat_completeness auto

termination
proof (relation "measure length")
  show "wf (measure length)" by simp
next
  fix s :: string
  assume "HasPrefix s ''../''"
  then have "s \<noteq> []" by (auto simp: HasPrefix_def)
  then show "(TrimPrefix s ''../'', s) \<in> measure length"
    using \<open>HasPrefix s ''../''\<close> by (simp add: TrimPrefix_def)
qed

definition normalizeSoftwarePath :: "string \<Rightarrow> string" where
  "normalizeSoftwarePath s0 =
     (let s = TrimSpace (ToLower s0) in
      if s = [] then []
      else TrimPrefix (stripDotDot (TrimPrefix (backslashToSlash s) ''./'')) ''/'')"

definition inferSoftwarePathFromSource :: "string \<Rightarrow> string" where
  "inferSoftwarePathFromSource source0 =
     (let source = backslashToSlash source0 in
      case Index source ''/software/'' of
        Some idx \<Rightarrow> TrimPrefix (drop (idx + 1) source) ''/''
      | None \<Rightarrow> [])"

text \<open>
  A Go map that is ranged over is the list of its entries, with distinct keys:
  \<open>m[k] = v\<close> is \<open>AList.update k v m\<close> and a lookup is \<open>map_of m k\<close>. Go leaves the order
  of \<open>range\<close> over a map open; here it is the order in which the keys were first
  inserted. \<open>sort.Slice\<close> is not stable; \<open>sort_key\<close> is one of the orders it may return.
\<close>

definition currentPkgKey :: "TeamSoftwarePackage \<Rightarrow> string" where
  "currentPkgKey p =
     (let key = normalizeSoftwarePath (TeamSoftwarePackage_ReferencedYAMLPath p) in
      if key = [] then normalizeSoftwarePath (TeamSoftwarePackage_URL p) else key)"

definition proposedPkgKey :: "ParsedSoftwarePackage \<Rightarrow> string" where
  "proposedPkgKey p =
     (let key = normalizeSoftwarePath (ParsedSoftwarePackage_RefPath p);
          key = (if key = [] then inferSoftwarePathFromSource (ParsedSoftwarePackage_SourceFile p)
                 else key)
      in if key = [] then normalizeSoftwarePath (ParsedSoftwarePackage_URL p) else key)"

text \<open>The loop \<open>for _, x := range xs { k := key(x); if k != "" { m[k] = x } }\<close>.\<close>

definition indexBy :: "('a \<Rightarrow> string) \<Rightarrow> 'a list \<Rightarrow> (string \<times> 'a) list" where
  "indexBy key xs =
     foldl (\<lambda>m x. if key x \<noteq> [] then AList.update (key x) x m else m) [] xs"

definition pkgStep ::
  "(string \<times> TeamSoftwarePackage) list \<Rightarrow> ResourceDiff \<Rightarrow> string \<times> ParsedSoftwarePackage
   \<Rightarrow> ResourceDiff" where
  "pkgStep currentPkgs rd kp =
     (case kp of (key, p) \<Rightarrow>
        (case map_of currentPkgs key of
           None \<Rightarrow>
             rd\<lparr>Added := Added rd @
               [change (normalizeSoftwarePath key)
                  ([(''url'', newField (ParsedSoftwarePackage_URL p)),
                    (''self_service'', newField (sprintBool (ParsedSoftwarePackage_SelfService p)))]
                   @ (if ParsedSoftwarePackage_HashSHA256 p \<noteq> []
                      then [(''hash_sha256'', newField (ParsedSoftwarePackage_HashSHA256 p))]
                      else []))]\<rparr>
         | Some cur \<Rightarrow>
             (let fields =
                (if TeamSoftwarePackage_URL cur \<noteq> ParsedSoftwarePackage_URL p
                 then [(''url'', \<lparr>Old = TeamSoftwarePackage_URL cur,
                                  New = ParsedSoftwarePackage_URL p\<rparr>)] else [])
                @ (if TeamSoftwarePackage_HashSHA256 cur \<noteq> ParsedSoftwarePackage_HashSHA256 p
                   then [(''hash_sha256'', \<lparr>Old = TeamSoftwarePackage_HashSHA256 cur,
                                            New = ParsedSoftwarePackage_HashSHA256 p\<rparr>)] else [])
                @ (if TeamSoftwarePackage_SelfService cur \<noteq> ParsedSoftwarePackage_SelfService p
                   then [(''self_service'',
                          \<lparr>Old = sprintBool (TeamSoftwarePackage_SelfService cur),
                           New = sprintBool (ParsedSoftwarePackage_SelfService p)\<rparr>)] else [])
              in if fields \<noteq> []
                 then rd\<lparr>Modified := Modified rd @ [change (normalizeSoftwarePath key) fields]\<rparr>
                 else rd)))"

text \<open>
  The loop \<open>for key := range current { if _, exists := proposed[key]; !exists { ... } }\<close>
  of each of the three collections; \<open>name\<close> makes the entry's name from the key.
\<close>

definition deletedStep ::
  "(string \<Rightarrow> string) \<Rightarrow> (string \<times> 'b) list \<Rightarrow> ResourceDiff \<Rightarrow> string \<times> 'a \<Rightarrow> ResourceDiff" where
  "deletedStep name proposed rd kc =
     (if map_of proposed (fst kc) = None
      then rd\<lparr>Deleted := Deleted rd @ [change (name (fst kc)) []]\<rparr>
      else rd)"

definition fleetStep ::
  "(string \<times> TeamFleetApp) list \<Rightarrow> ResourceDiff \<Rightarrow> string \<times> ParsedFleetApp \<Rightarrow> ResourceDiff" where
  "fleetStep currentFleet rd sa =
     (case sa of (slug, a) \<Rightarrow>
        (case map_of currentFleet slug of
           None \<Rightarrow>
             rd\<lparr>Added := Added rd @
               [change (''fleet app '' @ slug)
                  [(''slug'', newField (ParsedFleetApp_Slug a)),
                   (''self_service'', newField (sprintBool (ParsedFleetApp_SelfService a)))]]\<rparr>
         | Some cur \<Rightarrow>
             (if TeamFleetApp_SelfService cur \<noteq> ParsedFleetApp_SelfService a
              then rd\<lparr>Modified := Modified rd @
                     [change (''fleet app '' @ slug)
                        [(''self_service'',
                          \<lparr>Old = sprintBool (TeamFleetApp_SelfService cur),
                           New = sprintBool (ParsedFleetApp_SelfService a)\<rparr>)]]\<rparr>
              else rd)))"

definition appStep ::
  "(string \<times> TeamAppStoreApp) list \<Rightarrow> ResourceDiff \<Rightarrow> string \<times> ParsedAppStoreApp
   \<Rightarrow> ResourceDiff" where
  "appStep currentApps rd ia =
     (case ia of (aid, a) \<Rightarrow>
        (case map_of currentApps aid of
           None \<Rightarrow>
             rd\<lparr>Added := Added rd @
               [change (''app store app '' @ aid)
                  [(''app_store_id'', newField (ParsedAppStoreApp_AppStoreID a)),
                   (''self_service'', newField (sprintBool (ParsedAppStoreApp_SelfService a)))]]\<rparr>
         | Some cur \<Rightarrow>
             (if TeamAppStoreApp_SelfService cur \<noteq> ParsedAppStoreApp_SelfService a
              then rd\<lparr>Modified := Modified rd @
                     [change (''app store app '' @ aid)
                        [(''self_service'',
                          \<lparr>Old = sprintBool (TeamAppStoreApp_SelfService cur),
                           New = sprintBool (ParsedAppStoreApp_SelfService a)\<rparr>)]]\<rparr>
              else rd)))"

definition sortResourceChanges :: "ResourceDiff \<Rightarrow> ResourceDiff" where
  "sortResourceChanges rd =
     \<lparr>Added = sort_key Name (Added rd), Modified = sort_key Name (Modified rd),
      Deleted = sort_key Name (Deleted rd)\<rparr>"

text \<open>Ranging over a \<open>nil\<close> slice runs no iteration.\<close>

definition sliceOf :: "'a list option \<Rightarrow> 'a list" where
  "sliceOf xs = (case xs of None \<Rightarrow> [] | Some ys \<Rightarrow> ys)"

definition diffSoftware :: "TeamSoftware \<Rightarrow> ParsedSoftware \<Rightarrow> ResourceDiff" where
  "diffSoftware current proposed =
     (let currentPkgs = indexBy currentPkgKey (TeamSoftware_Packages current);
          proposedPkgs = indexBy proposedPkgKey (ParsedSoftware_Packages proposed);
          rd = foldl (pkgStep currentPkgs) emptyDiff proposedPkgs;
          rd = foldl (deletedStep normalizeSoftwarePath proposedPkgs) rd currentPkgs;
          currentFleet = indexBy (\<lambda>a. normalizeSoftwarePath (TeamFleetApp_Slug a))
                           (sliceOf (TeamSoftware_FleetMaintained current));
          proposedFleet = indexBy (\<lambda>a. normalizeSoftwarePath (ParsedFleetApp_Slug a))
                            (ParsedSoftware_FleetMaintained proposed);
          rd = foldl (fleetStep currentFleet) rd proposedFleet;
          rd = foldl (deletedStep (\<lambda>slug. ''fleet app '' @ slug) proposedFleet) rd currentFleet;
          currentApps = indexBy (\<lambda>a. TrimSpace (TeamAppStoreApp_AppStoreID a))
                          (TeamSoftware_AppStoreApps current);
          proposedApps = indexBy (\<lambda>a. TrimSpace (ParsedAppStoreApp_AppStoreID a))
                           (ParsedSoftware_AppStoreApps proposed);
          rd = foldl (appStep currentApps) rd proposedApps;
          rd = foldl (deletedStep (\<lambda>aid. ''app store app '' @ aid) proposedApps) rd currentApps
      in sortResourceChanges rd)"

subsection \<open>inferFleetMaintainedApps\<close>

definition normalizeFleetPlatform :: "string \<Rightarrow> string" where
  "normalizeFleetPlatform platform =
     (let p = TrimSpace (ToLower platform) in if p = ''macos'' then ''darwin'' else p)"

definition fleetCatalogKey :: "string \<Rightarrow> string \<Rightarrow> string" where
  "fleetCatalogKey name0 platform0 =
     (let name = TrimSpace (ToLower name0); platform = normalizeFleetPlatform platform0 in
      if name = [] \<or> platform = [] then [] else name @ ''|'' @ platform)"

text \<open>
  \<open>catalogByNamePlatform\<close> is a \<open>map[string][]FleetMaintainedApp\<close> that is only looked up;
  a missing key reads as the empty slice.
\<close>

definition catalogByNamePlatform ::
  "FleetMaintainedApp list \<Rightarrow> string \<Rightarrow> FleetMaintainedApp list" where
  "catalogByNamePlatform catalog =
     foldl (\<lambda>m app.
              (let key = fleetCatalogKey (FleetMaintainedApp_Name app)
                           (FleetMaintainedApp_Platform app)
               in if key = [] then m else m(key := m key @ [app])))
       (\<lambda>_. []) catalog"

definition customPackageURLs :: "TeamSoftwarePackage list \<Rightarrow> string list" where
  "customPackageURLs pkgs =
     filter (\<lambda>u. u \<noteq> []) (map (\<lambda>p. normalizeSoftwarePath (TeamSoftwarePackage_URL p)) pkgs)"

text \<open>One iteration of the loop over the software titles; each \<open>continue\<close> keeps the map.\<close>

definition inferStep ::
  "string list \<Rightarrow> (string \<Rightarrow> FleetMaintainedApp list) \<Rightarrow> (string \<times> TeamFleetApp) list
   \<Rightarrow> SoftwareTitle \<Rightarrow> (string \<times> TeamFleetApp) list" where
  "inferStep custom byKey inferred title =
     (if \<not> EqualFold (TrimSpace (SoftwareTitle_Source title)) ''apps'' then inferred
      else if SoftwareTitle_AppStoreApp title \<noteq> None then inferred
      else (case SoftwareTitle_SoftwarePackage title of
              None \<Rightarrow> inferred
            | Some pkg \<Rightarrow>
                (let packageURL = normalizeSoftwarePath (SoftwareTitlePackageMeta_PackageURL pkg) in
                 if packageURL \<noteq> [] \<and> packageURL \<in> set custom then inferred
                 else (let key = fleetCatalogKey (SoftwareTitle_Name title)
                                   (SoftwareTitlePackageMeta_Platform pkg);
                           matches = byKey key
                       in case matches of
                            [m] \<Rightarrow>
                              (let slug = normalizeSoftwarePath (FleetMaintainedApp_Slug m) in
                               if slug = [] then inferred
                               else AList.update slug
                                      \<lparr>TeamFleetApp_Slug = slug,
                                       TeamFleetApp_SelfService =
                                         SoftwareTitlePackageMeta_SelfService pkg\<rparr> inferred)
                          | _ \<Rightarrow> inferred))))"

definition inferFleetMaintainedApps :: "Team \<Rightarrow> FleetMaintainedApp list \<Rightarrow> TeamFleetApp list option" where
  "inferFleetMaintainedApps team catalog =
     (if Team_SoftwareTitles team = [] \<or> catalog = [] then None
      else (let inferred =
                  foldl (inferStep (customPackageURLs (TeamSoftware_Packages (Team_Software team)))
                           (catalogByNamePlatform catalog))
                    [] (Team_SoftwareTitles team)
            in if inferred = [] then None else Some (map snd inferred)))"

subsection \<open>Label validation\<close>

definition changedNames :: "ResourceDiff \<Rightarrow> string list" where
  "changedNames d = map Name (Added d) @ map Name (Modified d) @ map Name (Deleted d)"

definition labelIndex :: "Label list \<Rightarrow> (string \<rightharpoonup> Label)" where
  "labelIndex labels = foldl (\<lambda>m l. m(Label_Name l \<mapsto> l)) Map.empty labels"

text \<open>The closure \<open>checkLabel\<close>; the state is the validation and the names seen.\<close>

definition checkLabel ::
  "(string \<rightharpoonup> Label) \<Rightarrow> string \<Rightarrow> LabelValidation \<times> string list \<Rightarrow> string
   \<Rightarrow> LabelValidation \<times> string list" where
  "checkLabel labelMap referencedBy st name =
     (case st of (validation, seen) \<Rightarrow>
        if name \<in> set seen then st
        else (case labelMap name of
                Some l \<Rightarrow>
                  (validation\<lparr>Valid := Valid validation @
                     [\<lparr>LabelRef_Name = name, LabelRef_HostCount = Label_HostCount l,
                       LabelRef_ReferencedBy = referencedBy\<rparr>]\<rparr>, seen @ [name])
              | None \<Rightarrow>
                  (validation\<lparr>Missing := Missing validation @
                     [\<lparr>LabelRef_Name = name, LabelRef_HostCount = 0,
                       LabelRef_ReferencedBy = referencedBy\<rparr>]\<rparr>, seen @ [name])))"

definition validateLabels ::
  "ParsedTeam \<Rightarrow> (string \<rightharpoonup> Label) \<Rightarrow> string list \<Rightarrow> LabelValidation" where
  "validateLabels team labelMap changed =
     fst (foldl (\<lambda>st p.
                   if ParsedPolicy_Name p \<notin> set changed then st
                   else foldl (checkLabel labelMap (ParsedPolicy_Name p))
                          (foldl (checkLabel labelMap (ParsedPolicy_Name p)) st
                             (ParsedPolicy_LabelsIncludeAny p))
                          (ParsedPolicy_LabelsExcludeAny p))
            (\<lparr>Valid = [], Missing = []\<rparr>, []) (ParsedTeam_Policies team))"

subsection \<open>Global configuration\<close>

definition containsEnvVar :: "string \<Rightarrow> bool" where
  "containsEnvVar s = Contains s ''$''"

text \<open>
  \<open>flattenMap m prefix fn\<close> calls \<open>fn\<close> on every leaf; the model returns the leaves, as
  pairs of the dot-separated key and the printed value, in the order of the calls.
\<close>

fun flattenMap :: "(string \<times> anyval) list \<Rightarrow> string \<Rightarrow> (string \<times> string) list" where
  "flattenMap [] pfx = []"
| "flattenMap ((k, AMap nested) # m) pfx =
     flattenMap nested (if pfx \<noteq> [] then pfx @ ''.'' @ k else k) @ flattenMap m pfx"
| "flattenMap ((k, AVal s) # m) pfx =
     (if pfx \<noteq> [] then pfx @ ''.'' @ k else k, s) # flattenMap m pfx"

text \<open>\<open>fmt.Sprint\<close> of a value: a map prints as \<open>map[k1:v1 k2:v2]\<close> with its keys sorted.\<close>

fun joinWith :: "string \<Rightarrow> string list \<Rightarrow> string" where
  "joinWith sep [] = []"
| "joinWith sep [w] = w"
| "joinWith sep (w # v # ws) = w @ sep @ joinWith sep (v # ws)"

fun sprintAny :: "anyval \<Rightarrow> string" where
  "sprintAny (AVal s) = s"
| "sprintAny (AMap m) =
     ''map['' @ joinWith '' '' (map (\<lambda>(k, v). k @ '':'' @ sprintAny v) (sort_key fst m)) @ '']''"

text \<open>\<open>strings.Split key "."\<close>.\<close>

fun splitDot :: "string \<Rightarrow> string list" where
  "splitDot [] = [[]]"
| "splitDot (c # cs) =
     (if c = CHR ''.'' then [] # splitDot cs
      else (case splitDot cs of w # ws \<Rightarrow> (c # w) # ws | [] \<Rightarrow> [[c]]))"

text \<open>The loop of \<open>getNestedValue\<close> over the parts of the key.\<close>

fun nestedWalk :: "(string \<times> anyval) list \<Rightarrow> string list \<Rightarrow> string" where
  "nestedWalk current [] = []"
| "nestedWalk current [part] =
     (case map_of current part of None \<Rightarrow> [] | Some v \<Rightarrow> sprintAny v)"
| "nestedWalk current (part # rest) =
     (case map_of current part of
        None \<Rightarrow> []
      | Some (AMap next) \<Rightarrow> nestedWalk next rest
      | Some (AVal _) \<Rightarrow> [])"

definition getNestedValue :: "(string \<times> anyval) list \<Rightarrow> string \<Rightarrow> string" where
  "getNestedValue m key = nestedWalk m (splitDot key)"

text \<open>Where a section lives in the API's configuration; \<open>None\<close> is the \<open>nil\<close> map.\<close>

definition apiSectionOf :: "(string \<times> anyval) list \<Rightarrow> string \<Rightarrow> (string \<times> anyval) list option" where
  "apiSectionOf apiConfig section =
     (if section = ''org_settings'' then Some apiConfig
      else if section = ''agent_options''
      then (case map_of apiConfig ''agent_options'' of
              Some (AMap m) \<Rightarrow> Some m
            | _ \<Rightarrow> None)
      else if section = ''controls'' then Some apiConfig
      else None)"

definition sectionChanges ::
  "(string \<times> anyval) list \<Rightarrow> string \<Rightarrow> (string \<times> anyval) list \<Rightarrow> ConfigChange list" where
  "sectionChanges apiConfig section proposedMap =
     (case apiSectionOf apiConfig section of
        None \<Rightarrow>
          concat (map (\<lambda>(key, val).
                    if \<not> containsEnvVar val
                    then [\<lparr>ConfigChange_Section = section, ConfigChange_Key = key,
                           ConfigChange_Old = [], ConfigChange_New = val\<rparr>]
                    else [])
            (flattenMap proposedMap []))
      | Some apiSection \<Rightarrow>
          concat (map (\<lambda>(key, proposedVal).
                    if containsEnvVar proposedVal then []
                    else (let apiVal = getNestedValue apiSection key in
                          if apiVal \<noteq> proposedVal
                          then [\<lparr>ConfigChange_Section = section, ConfigChange_Key = key,
                                 ConfigChange_Old = apiVal, ConfigChange_New = proposedVal\<rparr>]
                          else []))
            (flattenMap proposedMap [])))"

text \<open>
  The three sections are the entries of a map literal; they are visited here in the
  order they are written.
\<close>

definition diffConfig :: "(string \<times> anyval) list \<Rightarrow> ParsedGlobal \<Rightarrow> ConfigChange list" where
  "diffConfig apiConfig proposed =
     concat (map (\<lambda>(section, proposedMap).
               case proposedMap of
                 None \<Rightarrow> []
               | Some m \<Rightarrow> sectionChanges apiConfig section m)
       [(''org_settings'', ParsedGlobal_OrgSettings proposed),
        (''agent_options'', ParsedGlobal_AgentOptions proposed),
        (''controls'', ParsedGlobal_Controls proposed)])"

subsection \<open>Diff\<close>

definition teamIndex :: "Team list \<Rightarrow> (string \<rightharpoonup> Team)" where
  "teamIndex teams = foldl (\<lambda>m t. m(Team_Name t \<mapsto> t)) Map.empty teams"

definition globalResult :: "FleetState \<Rightarrow> ParsedGlobal \<Rightarrow> DiffResult" where
  "globalResult current g =
     (emptyResult ''(global)'')
       \<lparr>Config := (case FleetState_Config current of
                     Some cfg \<Rightarrow> diffConfig cfg g
                   | None \<Rightarrow> []),
        Policies := diffPolicies (FleetState_GlobalPolicies current) (ParsedGlobal_Policies g),
        Queries := diffQueries (FleetState_GlobalQueries current) (ParsedGlobal_Queries g)\<rparr>"

text \<open>The body of the loop over the proposed teams, after the team filter.\<close>

definition teamResult ::
  "FleetState \<Rightarrow> (string \<rightharpoonup> Label) \<Rightarrow> (string \<rightharpoonup> Team) \<Rightarrow> ParsedTeam \<Rightarrow> DiffResult" where
  "teamResult current labelMap currentTeams proposedTeam =
     (let result = emptyResult (ParsedTeam_Name proposedTeam);
          result =
            (case currentTeams (ParsedTeam_Name proposedTeam) of
               None \<Rightarrow>
                 (if EqualFold (ParsedTeam_Name proposedTeam) ''No team''
                  then (let pCount = length (ParsedTeam_Policies proposedTeam);
                            qCount = length (ParsedTeam_Queries proposedTeam)
                        in if pCount > 0 \<or> qCount > 0
                           then result\<lparr>Errors := Errors result @ [NoTeamCounts pCount qCount]\<rparr>
                           else result)
                  else result
                    \<lparr>Policies := (Policies result)
                        \<lparr>Added := map (\<lambda>p. change (ParsedPolicy_Name p) [])
                                     (ParsedTeam_Policies proposedTeam)\<rparr>,
                     Queries := (Queries result)
                        \<lparr>Added := map (\<lambda>q. change (ParsedQuery_Name q) [])
                                     (ParsedTeam_Queries proposedTeam)\<rparr>,
                     Errors := Errors result @ [InfoTeamMissing (ParsedTeam_Name proposedTeam)]\<rparr>)
             | Some currentTeam \<Rightarrow>
                 (let currentSoftware = Team_Software currentTeam;
                      currentSoftware =
                        (if TeamSoftware_FleetMaintained (Team_Software currentTeam) = None
                            \<and> length (ParsedSoftware_FleetMaintained
                                        (ParsedTeam_Software proposedTeam)) > 0
                         then currentSoftware
                                \<lparr>TeamSoftware_FleetMaintained :=
                                   inferFleetMaintainedApps currentTeam
                                     (FleetState_FleetMaintainedCatalog current)\<rparr>
                         else currentSoftware);
                      profiles = diffProfiles (Team_Profiles currentTeam)
                                   (ParsedTeam_Profiles proposedTeam)
                  in result
                       \<lparr>Policies := diffPolicies (Team_Policies currentTeam)
                                      (ParsedTeam_Policies proposedTeam),
                        Queries := diffQueries (Team_Queries currentTeam)
                                     (ParsedTeam_Queries proposedTeam),
                        Software := diffSoftware currentSoftware (ParsedTeam_Software proposedTeam),
                        Profiles := fst profiles,
                        Errors := Errors result @ snd profiles\<rparr>))
      in result\<lparr>Labels := validateLabels proposedTeam labelMap (changedNames (Policies result))\<rparr>)"

definition Diff :: "FleetState \<Rightarrow> ParsedRepo \<Rightarrow> string \<Rightarrow> DiffResult list" where
  "Diff current proposed teamFilter =
     (let labelMap = labelIndex (FleetState_Labels current);
          results = (case ParsedRepo_Global proposed of
                       Some g \<Rightarrow> if teamFilter = [] then [globalResult current g] else []
                     | None \<Rightarrow> []);
          currentTeams = teamIndex (FleetState_Teams current)
      in results @
         map (teamResult current labelMap currentTeams)
           (filter (\<lambda>proposedTeam.
                      \<not> (teamFilter \<noteq> [] \<and> \<not> EqualFold (ParsedTeam_Name proposedTeam) teamFilter))
              (ParsedRepo_Teams proposed)))"

definition proposedSections :: "ParsedGlobal \<Rightarrow> (string \<times> (string \<times> anyval) list option) list" where
  "proposedSections g =
     [(''org_settings'', ParsedGlobal_OrgSettings g),
      (''agent_options'', ParsedGlobal_AgentOptions g),
      (''controls'', ParsedGlobal_Controls g)]"

definition exampleApiConfig :: "(string \<times> anyval) list" where
  "exampleApiConfig =
     [(''org_info'', AMap [(''org_name'', AVal ''Old Corp'')]),
      (''smtp_settings'', AMap [(''password'', AVal ''********'')])]"

definition exampleGlobal :: ParsedGlobal where
  "exampleGlobal =
     \<lparr>ParsedGlobal_OrgSettings =
        Some [(''org_info'', AMap [(''org_name'', AVal ''New Corp'')]),
              (''smtp_settings'', AMap [(''password'', AVal ''$SMTP_PASSWORD'')])],
      ParsedGlobal_AgentOptions = None, ParsedGlobal_Controls = None,
      ParsedGlobal_Policies = [], ParsedGlobal_Queries = [],
      ParsedGlobal_SourceFile = ''default.yml''\<rparr>"

subsection \<open>A small snapshot and repository\<close>

text \<open>
  A remote snapshot with one team, Workstations, whose list of fleet-maintained apps is
  \<open>null\<close>, and a repository that declares Workstations and a team Mobile that the
  remote side does not have.
\<close>

definition workstationsRemote :: Team where
  "workstationsRemote =
     \<lparr>Team_ID = 1, Team_Name = ''Workstations'',
      Team_Software =
        \<lparr>TeamSoftware_Packages = [], TeamSoftware_FleetMaintained = None,
         TeamSoftware_AppStoreApps =
           [\<lparr>TeamAppStoreApp_AppStoreID = ''111'', TeamAppStoreApp_SelfService = True\<rparr>]\<rparr>,
      Team_Policies = [], Team_Queries = [], Team_Profiles = [], Team_SoftwareTitles = []\<rparr>"

definition exampleState :: FleetState where
  "exampleState =
     \<lparr>FleetState_Teams = [workstationsRemote], FleetState_Labels = [],
      FleetState_FleetMaintainedCatalog = [], FleetState_Config = Some exampleApiConfig,
      FleetState_GlobalPolicies = [], FleetState_GlobalQueries = []\<rparr>"

definition workstationsProposed :: ParsedTeam where
  "workstationsProposed =
     \<lparr>ParsedTeam_Name = ''Workstations'', ParsedTeam_Policies = [], ParsedTeam_Queries = [],
      ParsedTeam_Software =
        \<lparr>ParsedSoftware_Packages = [],
         ParsedSoftware_FleetMaintained =
           [\<lparr>ParsedFleetApp_Slug = ''zoom/darwin'', ParsedFleetApp_SelfService = True\<rparr>],
         ParsedSoftware_AppStoreApps =
           [\<lparr>ParsedAppStoreApp_AppStoreID = ''111'', ParsedAppStoreApp_SelfService = True\<rparr>]\<rparr>,
      ParsedTeam_Profiles = [], ParsedTeam_SourceFile = ''teams/workstations.yml''\<rparr>"

definition mobileProposed :: ParsedTeam where
  "mobileProposed =
     \<lparr>ParsedTeam_Name = ''Mobile'',
      ParsedTeam_Policies = [parsedPolicyLit ''Passcode'' ''SELECT 1;''],
      ParsedTeam_Queries = [parsedQueryLit ''Battery'' ''SELECT 2;''],
      ParsedTeam_Software =
        \<lparr>ParsedSoftware_Packages = [],
         ParsedSoftware_FleetMaintained =
           [\<lparr>ParsedFleetApp_Slug = ''zoom/darwin'', ParsedFleetApp_SelfService = True\<rparr>],
         ParsedSoftware_AppStoreApps = []\<rparr>,
      ParsedTeam_Profiles =
        [\<lparr>ParsedProfile_Path = ''/repo/profiles/wifi.mobileconfig'', ParsedProfile_Name = ''wifi'',
          ParsedProfile_Platform = ''darwin'', ParsedProfile_SourceFile = ''teams/mobile.yml''\<rparr>],
      ParsedTeam_SourceFile = ''teams/mobile.yml''\<rparr>"

definition exampleRepo :: ParsedRepo where
  "exampleRepo =
     \<lparr>ParsedRepo_Teams = [workstationsProposed, mobileProposed], ParsedRepo_Labels = [],
      ParsedRepo_Global = Some exampleGlobal, ParsedRepo_Errors = []\<rparr>"

definition exampleRemoteSoftware :: TeamSoftware where
  "exampleRemoteSoftware =
     \<lparr>TeamSoftware_Packages = [], TeamSoftware_FleetMaintained = Some [],
      TeamSoftware_AppStoreApps = []\<rparr>"

definition exampleProposedSoftware :: ParsedSoftware where
  "exampleProposedSoftware =
     \<lparr>ParsedSoftware_Packages = [],
      ParsedSoftware_FleetMaintained =
        [\<lparr>ParsedFleetApp_Slug = ''zoom/darwin'', ParsedFleetApp_SelfService = True\<rparr>,
         \<lparr>ParsedFleetApp_Slug = ''slack/darwin'', ParsedFleetApp_SelfService = False\<rparr>],
      ParsedSoftware_AppStoreApps = []\<rparr>"

subsection \<open>C8: a null list of fleet-maintained apps\<close>


section \<open>Properties of the diff engine\<close>

subsection \<open>Keys of the buckets of policies, queries and profiles\<close>

lemma index_dom_gen:
  "(foldl (\<lambda>m p. m(f p \<mapsto> p)) m0 xs) k = None \<longleftrightarrow> (m0 k = None \<and> k \<notin> f ` set xs)"
  by (induction xs arbitrary: m0) auto

lemma policyIndex_None: "policyIndex current k = None \<longleftrightarrow> k \<notin> Policy_Name ` set current"
  using index_dom_gen [of Policy_Name Map.empty current k] by (simp add: policyIndex_def)

lemma policyStep_fold_Added:
  "map Name (Added (foldl (policyStep cm) d ps)) =
     map Name (Added d) @ filter (\<lambda>n. cm n = None) (map ParsedPolicy_Name ps)"
  by (induction ps arbitrary: d) (auto simp: policyStep_def change_def Let_def split: option.splits)

lemma policyStep_fold_Modified:
  "map Name (Modified (foldl (policyStep cm) d ps)) =
     map Name (Modified d) @
     map ParsedPolicy_Name
       (filter (\<lambda>p. case cm (ParsedPolicy_Name p) of None \<Rightarrow> False
                     | Some c \<Rightarrow> modifiedPolicyFields c p \<noteq> []) ps)"
  by (induction ps arbitrary: d) (auto simp: policyStep_def change_def Let_def split: option.splits)

lemma policyStep_fold_Deleted: "Deleted (foldl (policyStep cm) d ps) = Deleted d"
  by (induction ps arbitrary: d) (auto simp: policyStep_def Let_def split: option.splits)

lemma policyDeleteStep_fold_Deleted:
  "map Name (Deleted (foldl (policyDeleteStep ns) d cs)) =
     map Name (Deleted d) @ filter (\<lambda>n. n \<notin> set ns) (map Policy_Name cs)"
  by (induction cs arbitrary: d) (auto simp: policyDeleteStep_def Let_def)

lemma policyDeleteStep_fold_Added: "Added (foldl (policyDeleteStep ns) d cs) = Added d"
  by (induction cs arbitrary: d) (auto simp: policyDeleteStep_def Let_def)

lemma policyDeleteStep_fold_Modified: "Modified (foldl (policyDeleteStep ns) d cs) = Modified d"
  by (induction cs arbitrary: d) (auto simp: policyDeleteStep_def Let_def)

lemma diffPolicies_Added_names:
  "map Name (Added (diffPolicies current proposed)) =
     filter (\<lambda>n. n \<notin> Policy_Name ` set current) (map ParsedPolicy_Name proposed)"
  by (simp add: diffPolicies_def policyDeleteStep_fold_Added policyStep_fold_Added
      emptyDiff_def policyIndex_None)

lemma diffPolicies_Modified_names:
  "map Name (Modified (diffPolicies current proposed)) =
     map ParsedPolicy_Name
       (filter (\<lambda>p. case policyIndex current (ParsedPolicy_Name p) of None \<Rightarrow> False
                     | Some c \<Rightarrow> modifiedPolicyFields c p \<noteq> []) proposed)"
  by (simp add: diffPolicies_def policyDeleteStep_fold_Modified policyStep_fold_Modified
      emptyDiff_def)

lemma diffPolicies_Deleted_names:
  "map Name (Deleted (diffPolicies current proposed)) =
     filter (\<lambda>n. n \<notin> ParsedPolicy_Name ` set proposed) (map Policy_Name current)"
  by (simp add: diffPolicies_def policyDeleteStep_fold_Deleted policyStep_fold_Deleted
      emptyDiff_def)

lemma queryIndex_None: "queryIndex current k = None \<longleftrightarrow> k \<notin> Query_Name ` set current"
  using index_dom_gen [of Query_Name Map.empty current k] by (simp add: queryIndex_def)

lemma profileIndex_None: "profileIndex current k = None \<longleftrightarrow> k \<notin> Profile_Name ` set current"
  using index_dom_gen [of Profile_Name Map.empty current k] by (simp add: profileIndex_def)

lemma queryStep_fold_Added:
  "map Name (Added (foldl (queryStep cm) d qs)) =
     map Name (Added d) @ filter (\<lambda>n. cm n = None) (map ParsedQuery_Name qs)"
  by (induction qs arbitrary: d) (auto simp: queryStep_def change_def Let_def split: option.splits)

lemma queryStep_fold_Modified:
  "map Name (Modified (foldl (queryStep cm) d qs)) =
     map Name (Modified d) @
     map ParsedQuery_Name
       (filter (\<lambda>q. case cm (ParsedQuery_Name q) of None \<Rightarrow> False
                     | Some c \<Rightarrow> modifiedQueryFields c q \<noteq> []) qs)"
  by (induction qs arbitrary: d) (auto simp: queryStep_def change_def Let_def split: option.splits)

lemma queryStep_fold_Deleted: "Deleted (foldl (queryStep cm) d qs) = Deleted d"
  by (induction qs arbitrary: d) (auto simp: queryStep_def Let_def split: option.splits)

lemma queryDeleteStep_fold_Deleted:
  "map Name (Deleted (foldl (queryDeleteStep ns) d cs)) =
     map Name (Deleted d) @ filter (\<lambda>n. n \<notin> set ns) (map Query_Name cs)"
  by (induction cs arbitrary: d) (auto simp: queryDeleteStep_def change_def)

lemma queryDeleteStep_fold_Added: "Added (foldl (queryDeleteStep ns) d cs) = Added d"
  by (induction cs arbitrary: d) (auto simp: queryDeleteStep_def)

lemma queryDeleteStep_fold_Modified: "Modified (foldl (queryDeleteStep ns) d cs) = Modified d"
  by (induction cs arbitrary: d) (auto simp: queryDeleteStep_def)

lemma diffQueries_Added_names:
  "map Name (Added (diffQueries current proposed)) =
     filter (\<lambda>n. n \<notin> Query_Name ` set current) (map ParsedQuery_Name proposed)"
  by (simp add: diffQueries_def queryDeleteStep_fold_Added queryStep_fold_Added
      emptyDiff_def queryIndex_None)

lemma diffQueries_Modified_names:
  "map Name (Modified (diffQueries current proposed)) =
     map ParsedQuery_Name
       (filter (\<lambda>q. case queryIndex current (ParsedQuery_Name q) of None \<Rightarrow> False
                     | Some c \<Rightarrow> modifiedQueryFields c q \<noteq> []) proposed)"
  by (simp add: diffQueries_def queryDeleteStep_fold_Modified queryStep_fold_Modified
      emptyDiff_def)

lemma diffQueries_Deleted_names:
  "map Name (Deleted (diffQueries current proposed)) =
     filter (\<lambda>n. n \<notin> ParsedQuery_Name ` set proposed) (map Query_Name current)"
  by (simp add: diffQueries_def queryDeleteStep_fold_Deleted queryStep_fold_Deleted
      emptyDiff_def)

lemma profileStep_fold:
  "foldl (profileStep cm) (d, w, ns) ps = (d', w', ns') \<Longrightarrow>
     map Name (Added d') = map Name (Added d) @ filter (\<lambda>n. cm n = None) (map ParsedProfile_Name ps)
     \<and> Modified d' = Modified d \<and> Deleted d' = Deleted d
     \<and> ns' = ns @ map ParsedProfile_Name ps"
proof (induction ps arbitrary: d w ns)
  case Nil
  then show ?case by simp
next
  case (Cons p ps)
  obtain d1 w1 ns1 where step: "profileStep cm (d, w, ns) p = (d1, w1, ns1)"
    by (cases "profileStep cm (d, w, ns) p") auto
  with Cons.prems have "foldl (profileStep cm) (d1, w1, ns1) ps = (d', w', ns')" by simp
  note ih = Cons.IH [OF this]
  from step have "map Name (Added d1) =
      map Name (Added d) @ filter (\<lambda>n. cm n = None) [ParsedProfile_Name p]"
    and "Modified d1 = Modified d" and "Deleted d1 = Deleted d"
    and "ns1 = ns @ [ParsedProfile_Name p]"
    by (auto simp: profileStep_def Let_def change_def split: option.splits)
  with ih show ?case by simp
qed

lemma profileDeleteStep_fold_Deleted:
  "map Name (Deleted (foldl (profileDeleteStep ns) d cs)) =
     map Name (Deleted d) @ filter (\<lambda>n. n \<notin> set ns) (map Profile_Name cs)"
  by (induction cs arbitrary: d) (auto simp: profileDeleteStep_def change_def)

lemma profileDeleteStep_fold_Added: "Added (foldl (profileDeleteStep ns) d cs) = Added d"
  by (induction cs arbitrary: d) (auto simp: profileDeleteStep_def)

lemma profileDeleteStep_fold_Modified: "Modified (foldl (profileDeleteStep ns) d cs) = Modified d"
  by (induction cs arbitrary: d) (auto simp: profileDeleteStep_def)

lemma diffProfiles_names:
  "map Name (Added (fst (diffProfiles current proposed))) =
     filter (\<lambda>n. n \<notin> Profile_Name ` set current) (map ParsedProfile_Name proposed)"
  "Modified (fst (diffProfiles current proposed)) = []"
  "map Name (Deleted (fst (diffProfiles current proposed))) =
     filter (\<lambda>n. n \<notin> ParsedProfile_Name ` set proposed) (map Profile_Name current)"
proof -
  obtain d w ns where f: "foldl (profileStep (profileIndex current)) (emptyDiff, [], []) proposed
      = (d, w, ns)"
    by (cases "foldl (profileStep (profileIndex current)) (emptyDiff, [], []) proposed") auto
  note st = profileStep_fold [OF f]
  have dp: "fst (diffProfiles current proposed) = foldl (profileDeleteStep ns) d current"
    by (simp add: diffProfiles_def f)
  show "map Name (Added (fst (diffProfiles current proposed))) =
     filter (\<lambda>n. n \<notin> Profile_Name ` set current) (map ParsedProfile_Name proposed)"
    using st by (simp add: dp profileDeleteStep_fold_Added emptyDiff_def profileIndex_None)
  show "Modified (fst (diffProfiles current proposed)) = []"
    using st by (simp add: dp profileDeleteStep_fold_Modified emptyDiff_def)
  show "map Name (Deleted (fst (diffProfiles current proposed))) =
     filter (\<lambda>n. n \<notin> ParsedProfile_Name ` set proposed) (map Profile_Name current)"
    using st by (simp add: dp profileDeleteStep_fold_Deleted emptyDiff_def)
qed


lemma keysOf_map: "keysOf cs = set (map Name cs)"
  by (simp add: keysOf_def)

subsection \<open>C1: the partition of the keys\<close>




subsection \<open>C10: profiles are never Modified\<close>

text \<open>
  C10. For every pair of remote and proposed profile lists the Modified bucket of the
  profile diff is empty, and a name that occurs on both sides is the key of no Added and
  of no Deleted entry, whatever the platforms and paths of the two profiles are.
\<close>

theorem diffProfiles_never_modified:
  "Modified (fst (diffProfiles current proposed)) = [] \<and>
   (\<forall>n. n \<in> Profile_Name ` set current \<and> n \<in> ParsedProfile_Name ` set proposed \<longrightarrow>
        n \<notin> keysOf (Added (fst (diffProfiles current proposed))) \<and>
        n \<notin> keysOf (Deleted (fst (diffProfiles current proposed))))"
proof -
  have a: "keysOf (Added (fst (diffProfiles current proposed))) =
      set (filter (\<lambda>n. n \<notin> Profile_Name ` set current) (map ParsedProfile_Name proposed))"
    unfolding keysOf_map diffProfiles_names(1) ..
  have d: "keysOf (Deleted (fst (diffProfiles current proposed))) =
      set (filter (\<lambda>n. n \<notin> ParsedProfile_Name ` set proposed) (map Profile_Name current))"
    unfolding keysOf_map diffProfiles_names(3) ..
  show ?thesis unfolding a d by (simp add: diffProfiles_names(2))
qed

theorem diffProfiles_never_modified_witness:
  "''wifi'' \<in> Profile_Name `
      set [\<lparr>Profile_ProfileUUID = ''u1'', Profile_Name = ''wifi'', Profile_Platform = ''darwin''\<rparr>]
   \<and> ''wifi'' \<in> ParsedProfile_Name `
      set [\<lparr>ParsedProfile_Path = ''/repo/profiles/wifi.xml'', ParsedProfile_Name = ''wifi'',
        ParsedProfile_Platform = ''windows'', ParsedProfile_SourceFile = ''/repo/teams/a.yml''\<rparr>]
   \<and> Modified (fst (diffProfiles
      [\<lparr>Profile_ProfileUUID = ''u1'', Profile_Name = ''wifi'', Profile_Platform = ''darwin''\<rparr>]
      [\<lparr>ParsedProfile_Path = ''/repo/profiles/wifi.xml'', ParsedProfile_Name = ''wifi'',
        ParsedProfile_Platform = ''windows'', ParsedProfile_SourceFile = ''/repo/teams/a.yml''\<rparr>]))
     = []
   \<and> ''wifi'' \<notin> keysOf (Added (fst (diffProfiles
      [\<lparr>Profile_ProfileUUID = ''u1'', Profile_Name = ''wifi'', Profile_Platform = ''darwin''\<rparr>]
      [\<lparr>ParsedProfile_Path = ''/repo/profiles/wifi.xml'', ParsedProfile_Name = ''wifi'',
        ParsedProfile_Platform = ''windows'', ParsedProfile_SourceFile = ''/repo/teams/a.yml''\<rparr>])))
   \<and> ''wifi'' \<notin> keysOf (Deleted (fst (diffProfiles
      [\<lparr>Profile_ProfileUUID = ''u1'', Profile_Name = ''wifi'', Profile_Platform = ''darwin''\<rparr>]
      [\<lparr>ParsedProfile_Path = ''/repo/profiles/wifi.xml'', ParsedProfile_Name = ''wifi'',
        ParsedProfile_Platform = ''windows'', ParsedProfile_SourceFile = ''/repo/teams/a.yml''\<rparr>])))"
  using diffProfiles_never_modified
    [of "[\<lparr>Profile_ProfileUUID = ''u1'', Profile_Name = ''wifi'', Profile_Platform = ''darwin''\<rparr>]"
      "[\<lparr>ParsedProfile_Path = ''/repo/profiles/wifi.xml'', ParsedProfile_Name = ''wifi'',
        ParsedProfile_Platform = ''windows'', ParsedProfile_SourceFile = ''/repo/teams/a.yml''\<rparr>]"]
  by simp

subsection \<open>Whitespace normalization\<close>

lemma replaceWsRuns_nonspace_prefix:
  "\<forall>x \<in> set w. \<not> reSpace x \<Longrightarrow> replaceWsRuns (w @ r) = w @ replaceWsRuns r"
  by (induction w) auto

lemma wsWords_Nil [simp]: "wsWords [] = []"
  by (simp add: wsWords.simps)

lemma wsWords_dropWhile: "wsWords (dropWhile reSpace s) = wsWords s"
  by (subst (1 2) wsWords.simps) simp

lemma wsWords_space_Cons: "reSpace c \<Longrightarrow> wsWords (c # cs) = wsWords cs"
  by (subst (1 2) wsWords.simps) simp

lemma wsWords_nonspace_Cons:
  "\<not> reSpace c \<Longrightarrow> wsWords (c # cs) =
     (c # takeWhile (\<lambda>x. \<not> reSpace x) cs) # wsWords (dropWhile (\<lambda>x. \<not> reSpace x) cs)"
  by (subst wsWords.simps) simp

lemma replaceWsRuns_words_nolead:
  "s = [] \<or> \<not> reSpace (hd s) \<Longrightarrow>
     \<exists>t. t \<in> {[], [CHR 0x20]} \<and> replaceWsRuns s = joinSp (wsWords s) @ t"
proof (induction s rule: length_induct)
  case (1 s)
  show ?case
  proof (cases s)
    case Nil
    then show ?thesis by simp
  next
    case (Cons c cs)
    with 1(2) have nc: "\<not> reSpace c" by simp
    let ?w = "c # takeWhile (\<lambda>x. \<not> reSpace x) cs"
    let ?rest = "dropWhile (\<lambda>x. \<not> reSpace x) cs"
    have s: "s = ?w @ ?rest" using Cons by simp
    have wn: "\<forall>x \<in> set ?w. \<not> reSpace x" using nc by (auto dest: set_takeWhileD)
    have r1: "replaceWsRuns s = ?w @ replaceWsRuns ?rest"
      by (subst s) (rule replaceWsRuns_nonspace_prefix [OF wn])
    have ws: "wsWords s = ?w # wsWords ?rest"
      using Cons nc by (simp add: wsWords_nonspace_Cons)
    show ?thesis
    proof (cases ?rest)
      case Nil
      have "replaceWsRuns s = ?w" using r1 unfolding Nil by simp
      moreover have "joinSp (wsWords s) = ?w" using ws unfolding Nil by simp
      ultimately have "replaceWsRuns s = joinSp (wsWords s) @ []" by simp
      then show ?thesis by blast
    next
      case (Cons d ds)
      have pd: "reSpace d" using hd_dropWhile [of "\<lambda>x. \<not> reSpace x" cs] Cons by simp
      let ?s2 = "dropWhile reSpace ds"
      have r2: "replaceWsRuns ?rest = CHR 0x20 # replaceWsRuns ?s2" using Cons pd by simp
      have w2: "wsWords ?rest = wsWords ?s2"
        using Cons pd wsWords_space_Cons [of d ds] wsWords_dropWhile [of ds] by simp
      have len: "length ?s2 < length s"
      proof -
        have "length ?s2 \<le> length ds" by (rule length_dropWhile_le)
        moreover have "length ?rest \<le> length cs" by (rule length_dropWhile_le)
        ultimately show ?thesis using Cons \<open>s = c # cs\<close> by simp
      qed
      have nl: "?s2 = [] \<or> \<not> reSpace (hd ?s2)"
        using hd_dropWhile [of reSpace ds] by auto
      from 1(1) len nl obtain t where t: "t \<in> {[], [CHR 0x20]}"
        and ih: "replaceWsRuns ?s2 = joinSp (wsWords ?s2) @ t" by blast
      show ?thesis
      proof (cases "wsWords ?s2")
        case Nil
        have "?s2 = []"
        proof (rule ccontr)
          assume ne: "?s2 \<noteq> []"
          then obtain e es where e: "?s2 = e # es" by (cases ?s2) auto
          with nl have "\<not> reSpace e" by simp
          then have "wsWords ?s2 \<noteq> []" using e by (simp add: wsWords_nonspace_Cons)
          with Nil show False by simp
        qed
        then have "replaceWsRuns ?s2 = []" by (simp only: replaceWsRuns.simps)
        then have "replaceWsRuns s = ?w @ [CHR 0x20]" by (simp only: r1 r2)
        moreover have "joinSp (wsWords s) = ?w" by (simp only: ws w2 Nil joinSp.simps)
        ultimately show ?thesis by simp
      next
        case (Cons v vs)
        have "replaceWsRuns s = ?w @ CHR 0x20 # joinSp (v # vs) @ t" using r1 r2 ih Cons by simp
        moreover have "joinSp (wsWords s) = ?w @ CHR 0x20 # joinSp (v # vs)"
          using ws w2 Cons by simp
        ultimately show ?thesis using t by simp
      qed
    qed
  qed
qed

lemma replaceWsRuns_words: "padded (replaceWsRuns s) (joinSp (wsWords s))"
proof (cases s)
  case Nil
  then show ?thesis by (simp add: padded_def)
next
  case (Cons c cs)
  show ?thesis
  proof (cases "reSpace c")
    case True
    let ?s2 = "dropWhile reSpace cs"
    have nl: "?s2 = [] \<or> \<not> reSpace (hd ?s2)" using hd_dropWhile [of reSpace cs] by auto
    from replaceWsRuns_words_nolead [OF nl] obtain t where t: "t \<in> {[], [CHR 0x20]}"
      and r: "replaceWsRuns ?s2 = joinSp (wsWords ?s2) @ t" by blast
    have "wsWords s = wsWords ?s2"
      using Cons True wsWords_space_Cons [of c cs] wsWords_dropWhile [of cs] by simp
    moreover have "replaceWsRuns s = CHR 0x20 # replaceWsRuns ?s2" using Cons True by simp
    ultimately have "replaceWsRuns s = [CHR 0x20] @ joinSp (wsWords s) @ t" using r by simp
    then show ?thesis unfolding padded_def using t by blast
  next
    case False
    then have "s = [] \<or> \<not> reSpace (hd s)" using Cons by simp
    from replaceWsRuns_words_nolead [OF this] obtain t where t: "t \<in> {[], [CHR 0x20]}"
      and r: "replaceWsRuns s = joinSp (wsWords s) @ t" by blast
    then have "replaceWsRuns s = [] @ joinSp (wsWords s) @ t" by simp
    then show ?thesis unfolding padded_def using t by blast
  qed
qed

lemma trimLeftRunes_step0: "leadWidth rs s = 0 \<Longrightarrow> trimLeftRunes rs s = s"
  by (subst trimLeftRunes.simps) simp

lemma trimLeftRunes_step: "leadWidth rs s \<noteq> 0 \<Longrightarrow>
    trimLeftRunes rs s = trimLeftRunes rs (drop (leadWidth rs s) s)"
  by (subst trimLeftRunes.simps) simp

lemma leadWidth_le: "leadWidth rs s \<le> length s"
proof -
  have "\<And>e es. filter (\<lambda>e. prefix e s) rs = e # es \<Longrightarrow> length e \<le> length s"
  proof -
    fix e es
    assume "filter (\<lambda>e. prefix e s) rs = e # es"
    then have "e \<in> set (filter (\<lambda>e. prefix e s) rs)" by simp
    then show "length e \<le> length s" by (simp add: prefix_length_le)
  qed
  then show ?thesis by (simp add: leadWidth_def split: list.split)
qed

lemma leadWidth_space: "leadWidth spaceRunes (CHR 0x20 # y) = 1"
  by (simp add: leadWidth_def spaceRunes_def)

lemma leadWidth_space_rev: "leadWidth (map rev spaceRunes) (CHR 0x20 # y) = 1"
  by (simp add: leadWidth_def spaceRunes_def)

lemma TrimLeftSpace_space: "TrimLeftSpace (CHR 0x20 # y) = TrimLeftSpace y"
  unfolding TrimLeftSpace_def
  by (subst trimLeftRunes_step) (simp_all add: leadWidth_space)

lemma TrimRightSpace_space: "TrimRightSpace (z @ [CHR 0x20]) = TrimRightSpace z"
  unfolding TrimRightSpace_def
  by (simp, subst trimLeftRunes_step) (simp_all add: leadWidth_space_rev)

lemma spaceRunes_shape: "e \<in> set spaceRunes \<Longrightarrow> length e = 1 \<or> last e \<noteq> CHR 0x20"
  by (auto simp: spaceRunes_def)

lemma leadWidth_snoc_space:
  assumes "x \<noteq> []"
  shows "leadWidth spaceRunes (x @ [CHR 0x20]) = leadWidth spaceRunes x"
proof -
  have "prefix e (x @ [CHR 0x20]) = prefix e x" if e: "e \<in> set spaceRunes" for e
  proof -
    have "e \<noteq> x @ [CHR 0x20]"
    proof
      assume eq: "e = x @ [CHR 0x20]"
      then have "last e = CHR 0x20" and "length e \<noteq> 1" using assms by auto
      with spaceRunes_shape [OF e] show False by simp
    qed
    then show ?thesis by (simp add: prefix_snoc)
  qed
  then have "filter (\<lambda>e. prefix e (x @ [CHR 0x20])) spaceRunes = filter (\<lambda>e. prefix e x) spaceRunes"
    by (intro filter_cong) auto
  then show ?thesis by (simp add: leadWidth_def)
qed

lemma TrimSpace_snoc_space: "TrimSpace (x @ [CHR 0x20]) = TrimSpace x"
proof (induction x rule: length_induct)
  case (1 x)
  show ?case
  proof (cases "x = []")
    case True
    have "TrimLeftSpace [CHR 0x20] = TrimLeftSpace []" by (rule TrimLeftSpace_space)
    then show ?thesis using True by (simp add: TrimSpace_def)
  next
    case False
    note lw = leadWidth_snoc_space [OF False]
    show ?thesis
    proof (cases "leadWidth spaceRunes x = 0")
      case True
      then have "TrimLeftSpace x = x" "TrimLeftSpace (x @ [CHR 0x20]) = x @ [CHR 0x20]"
        using lw by (simp_all add: TrimLeftSpace_def trimLeftRunes_step0)
      then show ?thesis by (simp add: TrimSpace_def TrimRightSpace_space)
    next
      case nz: False
      let ?k = "leadWidth spaceRunes x"
      have k: "?k \<le> length x" by (rule leadWidth_le)
      have a: "TrimLeftSpace x = TrimLeftSpace (drop ?k x)"
        unfolding TrimLeftSpace_def by (rule trimLeftRunes_step [OF nz])
      have "TrimLeftSpace (x @ [CHR 0x20]) = TrimLeftSpace (drop ?k (x @ [CHR 0x20]))"
        unfolding TrimLeftSpace_def using trimLeftRunes_step [of spaceRunes "x @ [CHR 0x20]"] nz lw
        by simp
      then have b: "TrimLeftSpace (x @ [CHR 0x20]) = TrimLeftSpace (drop ?k x @ [CHR 0x20])"
        using k by simp
      have "length (drop ?k x) < length x" using nz False by simp
      with 1 have "TrimSpace (drop ?k x @ [CHR 0x20]) = TrimSpace (drop ?k x)" by blast
      then show ?thesis using a b by (simp add: TrimSpace_def)
    qed
  qed
qed

lemma TrimSpace_space_Cons: "TrimSpace (CHR 0x20 # y) = TrimSpace y"
  by (simp add: TrimSpace_def TrimLeftSpace_space)

lemma TrimSpace_padded: "padded x y \<Longrightarrow> TrimSpace x = TrimSpace y"
proof -
  assume "padded x y"
  then obtain l t where l: "l \<in> {[], [CHR 0x20]}" and t: "t \<in> {[], [CHR 0x20]}"
    and x: "x = l @ y @ t" unfolding padded_def by blast
  have "TrimSpace (l @ y @ t) = TrimSpace (y @ t)"
    using l by (auto simp: TrimSpace_space_Cons)
  also have "\<dots> = TrimSpace y" using t by (auto simp: TrimSpace_snoc_space)
  finally show ?thesis using x by simp
qed

lemma normalizeWS_words: "normalizeWS s = TrimSpace (joinSp (wsWords s))"
  unfolding normalizeWS_def by (rule TrimSpace_padded [OF replaceWsRuns_words])

lemma normalizeWS_cong: "wsWords a = wsWords b \<Longrightarrow> normalizeWS a = normalizeWS b"
  by (simp add: normalizeWS_words)

lemma replaceWsRuns_hd:
  "s \<noteq> [] \<Longrightarrow> \<not> reSpace (hd s) \<Longrightarrow> replaceWsRuns s \<noteq> [] \<and> hd (replaceWsRuns s) = hd s"
  by (cases s) auto

lemma replaceWsRuns_Nil_iff: "replaceWsRuns s = [] \<longleftrightarrow> s = []"
  by (cases s) auto

lemma wsIsolated_replaceWsRuns: "wsIsolated (replaceWsRuns s)"
proof (induction s rule: replaceWsRuns.induct)
  case 1
  then show ?case by simp
next
  case (2 c cs)
  show ?case
  proof (cases "reSpace c")
    case True
    let ?r = "dropWhile reSpace cs"
    have "replaceWsRuns ?r = [] \<or> \<not> reSpace (hd (replaceWsRuns ?r))"
    proof (cases "?r = []")
      case True
      then have "replaceWsRuns ?r = []" by (simp only: replaceWsRuns.simps)
      then show ?thesis by blast
    next
      case False
      then have "\<not> reSpace (hd ?r)" by (rule hd_dropWhile)
      with False show ?thesis using replaceWsRuns_hd [of ?r] by simp
    qed
    moreover have "wsIsolated (replaceWsRuns ?r)" using 2(1) [OF True] .
    moreover have "replaceWsRuns (c # cs) = CHR 0x20 # replaceWsRuns ?r" using True by simp
    ultimately show ?thesis by (simp only: wsIsolated.simps) simp
  next
    case False
    then show ?thesis using 2 by simp
  qed
qed

lemma replaceWsRuns_isolated: "wsIsolated u \<Longrightarrow> replaceWsRuns u = u"
proof (induction u)
  case Nil
  then show ?case by simp
next
  case (Cons c cs)
  show ?case
  proof (cases "reSpace c")
    case True
    with Cons.prems have c: "c = CHR 0x20" and h: "cs = [] \<or> \<not> reSpace (hd cs)" by auto
    from h have "dropWhile reSpace cs = cs" by (cases cs) auto
    then show ?thesis using True c Cons by simp
  next
    case False
    then show ?thesis using Cons by simp
  qed
qed

lemma wsIsolated_drop: "wsIsolated u \<Longrightarrow> wsIsolated (drop n u)"
proof (induction n arbitrary: u)
  case 0
  then show ?case by simp
next
  case (Suc n)
  then show ?case by (cases u) auto
qed

lemma wsIsolated_take: "wsIsolated u \<Longrightarrow> wsIsolated (take n u)"
proof (induction u arbitrary: n)
  case Nil
  then show ?case by simp
next
  case (Cons c cs)
  show ?case
  proof (cases n)
    case 0
    then show ?thesis by simp
  next
    case (Suc m)
    have iso: "wsIsolated (take m cs)" using Cons by simp
    have "take m cs = [] \<or> hd (take m cs) = hd cs" by (cases m; cases cs) auto
    moreover have "take m cs \<noteq> [] \<Longrightarrow> cs \<noteq> []" by auto
    ultimately show ?thesis using Cons.prems iso Suc by auto
  qed
qed

lemma trimLeftRunes_drop: "\<exists>k. trimLeftRunes rs z = drop k z"
proof (induction rs z rule: trimLeftRunes.induct)
  case (1 rs s)
  show ?case
  proof (cases "leadWidth rs s = 0")
    case True
    then have "trimLeftRunes rs s = drop 0 s" by (simp add: trimLeftRunes_step0)
    then show ?thesis by blast
  next
    case False
    from 1 [OF False] obtain k where "trimLeftRunes rs (drop (leadWidth rs s) s) = drop k (drop (leadWidth rs s) s)"
      by blast
    then have "trimLeftRunes rs s = drop (leadWidth rs s + k) s"
      using trimLeftRunes_step [OF False] by (simp add: add.commute)
    then show ?thesis by blast
  qed
qed

lemma leadWidth_trimLeftRunes: "leadWidth rs (trimLeftRunes rs z) = 0"
proof (induction rs z rule: trimLeftRunes.induct)
  case (1 rs s)
  show ?case
  proof (cases "leadWidth rs s = 0")
    case True
    then show ?thesis by (simp add: trimLeftRunes_step0)
  next
    case False
    from 1 [OF False] show ?thesis using trimLeftRunes_step [OF False] by simp
  qed
qed

lemma leadWidth_spaceRunes_0: "leadWidth spaceRunes y = 0 \<longleftrightarrow> filter (\<lambda>e. prefix e y) spaceRunes = []"
proof
  assume z: "leadWidth spaceRunes y = 0"
  show "filter (\<lambda>e. prefix e y) spaceRunes = []"
  proof (cases "filter (\<lambda>e. prefix e y) spaceRunes")
    case Nil
    then show ?thesis .
  next
    case (Cons e es)
    then have "e \<in> set (filter (\<lambda>e. prefix e y) spaceRunes)" by simp
    then have "e \<in> set spaceRunes" by simp
    then have "e \<noteq> []" by (auto simp: spaceRunes_def)
    with z Cons show ?thesis by (simp add: leadWidth_def)
  qed
next
  assume "filter (\<lambda>e. prefix e y) spaceRunes = []"
  then show "leadWidth spaceRunes y = 0" by (simp add: leadWidth_def)
qed

lemma leadWidth_take: "leadWidth spaceRunes y = 0 \<Longrightarrow> leadWidth spaceRunes (take n y) = 0"
proof -
  assume "leadWidth spaceRunes y = 0"
  then have "\<forall>e \<in> set spaceRunes. \<not> prefix e y"
    by (simp add: leadWidth_spaceRunes_0 filter_empty_conv)
  moreover have "prefix e (take n y) \<Longrightarrow> prefix e y" for e
    using prefix_order.trans take_is_prefix by blast
  ultimately have "\<forall>e \<in> set spaceRunes. \<not> prefix e (take n y)" by blast
  then show ?thesis by (simp add: leadWidth_spaceRunes_0 filter_empty_conv)
qed

lemma TrimSpace_shape:
  "\<exists>k n. TrimSpace x = take n (drop k x) \<and> leadWidth spaceRunes (TrimSpace x) = 0
     \<and> leadWidth (map rev spaceRunes) (rev (TrimSpace x)) = 0"
proof -
  let ?rr = "map rev spaceRunes"
  obtain k where k: "TrimLeftSpace x = drop k x"
    unfolding TrimLeftSpace_def using trimLeftRunes_drop by blast
  let ?y = "drop k x"
  have y0: "leadWidth spaceRunes ?y = 0"
    using leadWidth_trimLeftRunes [of spaceRunes x] k by (simp add: TrimLeftSpace_def)
  obtain m where m: "trimLeftRunes ?rr (rev ?y) = drop m (rev ?y)"
    using trimLeftRunes_drop by blast
  have t: "TrimSpace x = rev (trimLeftRunes ?rr (rev ?y))"
    by (simp add: TrimSpace_def TrimRightSpace_def k)
  have rd: "rev (drop m (rev y)) = take (length y - m) y" for y :: string
    by (simp add: rev_drop)
  have t2: "TrimSpace x = take (length ?y - m) ?y"
    unfolding t m by (rule rd)
  have r0: "leadWidth ?rr (rev (TrimSpace x)) = 0"
    unfolding t by (simp add: leadWidth_trimLeftRunes)
  have l0: "leadWidth spaceRunes (TrimSpace x) = 0"
    unfolding t2 by (rule leadWidth_take [OF y0])
  show ?thesis using t2 r0 l0 by blast
qed

lemma TrimSpace_fixed:
  assumes "leadWidth spaceRunes t = 0" and "leadWidth (map rev spaceRunes) (rev t) = 0"
  shows "TrimSpace t = t"
  using assms by (simp add: TrimSpace_def TrimLeftSpace_def TrimRightSpace_def trimLeftRunes_step0)

lemma normalizeWS_idem: "normalizeWS (normalizeWS s) = normalizeWS s"
proof -
  let ?X = "replaceWsRuns s"
  from TrimSpace_shape [of ?X] obtain k n where t: "TrimSpace ?X = take n (drop k ?X)"
    and l0: "leadWidth spaceRunes (TrimSpace ?X) = 0"
    and r0: "leadWidth (map rev spaceRunes) (rev (TrimSpace ?X)) = 0" by blast
  have "wsIsolated (TrimSpace ?X)"
    unfolding t by (intro wsIsolated_take wsIsolated_drop wsIsolated_replaceWsRuns)
  then have "replaceWsRuns (TrimSpace ?X) = TrimSpace ?X" by (rule replaceWsRuns_isolated)
  moreover have "TrimSpace (TrimSpace ?X) = TrimSpace ?X" by (rule TrimSpace_fixed [OF l0 r0])
  ultimately show ?thesis by (simp add: normalizeWS_def)
qed

lemma policyStep_fold_entries:
  assumes "\<forall>c \<in> set (Added d). \<exists>p \<in> S. Name c = ParsedPolicy_Name p \<and> Fields c = addedPolicyFields p"
    and "\<forall>c \<in> set (Modified d). \<exists>p \<in> S. \<exists>cu. cm (ParsedPolicy_Name p) = Some cu
           \<and> Name c = ParsedPolicy_Name p \<and> Fields c = modifiedPolicyFields cu p"
    and "set ps \<subseteq> S"
  shows "(\<forall>c \<in> set (Added (foldl (policyStep cm) d ps)).
            \<exists>p \<in> S. Name c = ParsedPolicy_Name p \<and> Fields c = addedPolicyFields p)
       \<and> (\<forall>c \<in> set (Modified (foldl (policyStep cm) d ps)).
            \<exists>p \<in> S. \<exists>cu. cm (ParsedPolicy_Name p) = Some cu
              \<and> Name c = ParsedPolicy_Name p \<and> Fields c = modifiedPolicyFields cu p)"
  using assms
proof (induction ps arbitrary: d)
  case Nil
  then show ?case by simp
next
  case (Cons p ps)
  have pS: "p \<in> S" using Cons.prems(3) by simp
  have a: "\<forall>c \<in> set (Added (policyStep cm d p)).
      \<exists>p \<in> S. Name c = ParsedPolicy_Name p \<and> Fields c = addedPolicyFields p"
    using Cons.prems(1) pS
    by (auto simp: policyStep_def change_def Let_def split: option.splits)
  have m: "\<forall>c \<in> set (Modified (policyStep cm d p)).
      \<exists>p \<in> S. \<exists>cu. cm (ParsedPolicy_Name p) = Some cu
           \<and> Name c = ParsedPolicy_Name p \<and> Fields c = modifiedPolicyFields cu p"
    using Cons.prems(2) pS
    by (auto simp: policyStep_def change_def Let_def split: option.splits)
  have "set ps \<subseteq> S" using Cons.prems(3) by simp
  from Cons.IH [OF a m this] show ?case by simp
qed

lemma diffPolicies_entries:
  "(\<forall>c \<in> set (Added (diffPolicies current proposed)).
      \<exists>p \<in> set proposed. Name c = ParsedPolicy_Name p \<and> Fields c = addedPolicyFields p)
   \<and> (\<forall>c \<in> set (Modified (diffPolicies current proposed)).
      \<exists>p \<in> set proposed. \<exists>cu. policyIndex current (ParsedPolicy_Name p) = Some cu
        \<and> Name c = ParsedPolicy_Name p \<and> Fields c = modifiedPolicyFields cu p)"
  unfolding diffPolicies_def policyDeleteStep_fold_Added policyDeleteStep_fold_Modified
  by (rule policyStep_fold_entries) (simp_all add: emptyDiff_def)

lemma queryStep_fold_entries:
  assumes "\<forall>c \<in> set (Added d). \<exists>q \<in> S. Name c = ParsedQuery_Name q \<and> Fields c = addedQueryFields q"
    and "\<forall>c \<in> set (Modified d). \<exists>q \<in> S. \<exists>cu. cm (ParsedQuery_Name q) = Some cu
           \<and> Name c = ParsedQuery_Name q \<and> Fields c = modifiedQueryFields cu q"
    and "set qs \<subseteq> S"
  shows "(\<forall>c \<in> set (Added (foldl (queryStep cm) d qs)).
            \<exists>q \<in> S. Name c = ParsedQuery_Name q \<and> Fields c = addedQueryFields q)
       \<and> (\<forall>c \<in> set (Modified (foldl (queryStep cm) d qs)).
            \<exists>q \<in> S. \<exists>cu. cm (ParsedQuery_Name q) = Some cu
              \<and> Name c = ParsedQuery_Name q \<and> Fields c = modifiedQueryFields cu q)"
  using assms
proof (induction qs arbitrary: d)
  case Nil
  then show ?case by simp
next
  case (Cons q qs)
  have qS: "q \<in> S" using Cons.prems(3) by simp
  have a: "\<forall>c \<in> set (Added (queryStep cm d q)).
      \<exists>q \<in> S. Name c = ParsedQuery_Name q \<and> Fields c = addedQueryFields q"
    using Cons.prems(1) qS
    by (auto simp: queryStep_def change_def Let_def split: option.splits)
  have m: "\<forall>c \<in> set (Modified (queryStep cm d q)).
      \<exists>q \<in> S. \<exists>cu. cm (ParsedQuery_Name q) = Some cu
           \<and> Name c = ParsedQuery_Name q \<and> Fields c = modifiedQueryFields cu q"
    using Cons.prems(2) qS
    by (auto simp: queryStep_def change_def Let_def split: option.splits)
  have "set qs \<subseteq> S" using Cons.prems(3) by simp
  from Cons.IH [OF a m this] show ?case by simp
qed

lemma diffQueries_entries:
  "(\<forall>c \<in> set (Added (diffQueries current proposed)).
      \<exists>q \<in> set proposed. Name c = ParsedQuery_Name q \<and> Fields c = addedQueryFields q)
   \<and> (\<forall>c \<in> set (Modified (diffQueries current proposed)).
      \<exists>q \<in> set proposed. \<exists>cu. queryIndex current (ParsedQuery_Name q) = Some cu
        \<and> Name c = ParsedQuery_Name q \<and> Fields c = modifiedQueryFields cu q)"
  unfolding diffQueries_def queryDeleteStep_fold_Added queryDeleteStep_fold_Modified
  by (rule queryStep_fold_entries) (simp_all add: emptyDiff_def)

lemma normalizeWS_Nil: "normalizeWS [] = []"
  by code_simp

lemma storedNormalized_addedPolicy: "storedNormalized (addedPolicyFields p)"
  by (auto simp: storedNormalized_def addedPolicyFields_def newField_def freeTextKeys_def
      normalizeWS_idem normalizeWS_Nil split: if_splits)

lemma storedNormalized_modifiedPolicy: "storedNormalized (modifiedPolicyFields cu p)"
  by (auto simp: storedNormalized_def modifiedPolicyFields_def freeTextKeys_def normalizeWS_idem
      split: if_splits)

lemma storedNormalized_addedQuery: "storedNormalized (addedQueryFields q)"
  by (auto simp: storedNormalized_def addedQueryFields_def newField_def freeTextKeys_def
      normalizeWS_idem normalizeWS_Nil split: if_splits)

lemma storedNormalized_modifiedQuery: "storedNormalized (modifiedQueryFields cu q)"
  by (auto simp: storedNormalized_def modifiedQueryFields_def freeTextKeys_def normalizeWS_idem
      split: if_splits)

lemma policy_no_field:
  "wsWords (Policy_Query cur) = wsWords (ParsedPolicy_Query p) \<Longrightarrow>
     ''query'' \<notin> fst ` set (modifiedPolicyFields cur p)"
  "wsWords (Policy_Description cur) = wsWords (ParsedPolicy_Description p) \<Longrightarrow>
     ''description'' \<notin> fst ` set (modifiedPolicyFields cur p)"
  "wsWords (Policy_Resolution cur) = wsWords (ParsedPolicy_Resolution p) \<Longrightarrow>
     ''resolution'' \<notin> fst ` set (modifiedPolicyFields cur p)"
proof -
  show "''query'' \<notin> fst ` set (modifiedPolicyFields cur p)"
    if "wsWords (Policy_Query cur) = wsWords (ParsedPolicy_Query p)"
    using normalizeWS_cong [OF that] by (auto simp: modifiedPolicyFields_def split: if_splits)
  show "''description'' \<notin> fst ` set (modifiedPolicyFields cur p)"
    if "wsWords (Policy_Description cur) = wsWords (ParsedPolicy_Description p)"
    using normalizeWS_cong [OF that] by (auto simp: modifiedPolicyFields_def split: if_splits)
  show "''resolution'' \<notin> fst ` set (modifiedPolicyFields cur p)"
    if "wsWords (Policy_Resolution cur) = wsWords (ParsedPolicy_Resolution p)"
    using normalizeWS_cong [OF that] by (auto simp: modifiedPolicyFields_def split: if_splits)
qed

lemma query_no_field:
  "wsWords (Query_Query qc) = wsWords (ParsedQuery_Query q) \<Longrightarrow>
     ''query'' \<notin> fst ` set (modifiedQueryFields qc q)"
  using normalizeWS_cong [of "Query_Query qc" "ParsedQuery_Query q"]
  by (auto simp: modifiedQueryFields_def split: if_splits)

subsection \<open>C4: free text is compared and stored normalized\<close>

text \<open>
  C4. For a matched pair of a remote and a proposed policy, a query, description or
  resolution text that has the same words on both sides (the two values differ only in
  interior whitespace runs or in leading or trailing whitespace) is not among the
  differing fields, and likewise for the query text of a matched pair of queries. Every
  Modified entry of the policy diff and of the query diff carries the differing fields of
  such a matched pair. In every Added and Modified entry every stored free-text value, old
  and new, is in normalized form: normalizing it again changes nothing.
\<close>

theorem whitespace_normalization:
  "(wsWords (Policy_Query cur) = wsWords (ParsedPolicy_Query p) \<longrightarrow>
      ''query'' \<notin> fst ` set (modifiedPolicyFields cur p))
   \<and> (wsWords (Policy_Description cur) = wsWords (ParsedPolicy_Description p) \<longrightarrow>
      ''description'' \<notin> fst ` set (modifiedPolicyFields cur p))
   \<and> (wsWords (Policy_Resolution cur) = wsWords (ParsedPolicy_Resolution p) \<longrightarrow>
      ''resolution'' \<notin> fst ` set (modifiedPolicyFields cur p))
   \<and> (wsWords (Query_Query qc) = wsWords (ParsedQuery_Query q) \<longrightarrow>
      ''query'' \<notin> fst ` set (modifiedQueryFields qc q))
   \<and> (\<forall>c \<in> set (Modified (diffPolicies current proposed)).
        \<exists>p \<in> set proposed. \<exists>cu. policyIndex current (ParsedPolicy_Name p) = Some cu
          \<and> Name c = ParsedPolicy_Name p \<and> Fields c = modifiedPolicyFields cu p)
   \<and> (\<forall>c \<in> set (Modified (diffQueries currentQ proposedQ)).
        \<exists>q \<in> set proposedQ. \<exists>cu. queryIndex currentQ (ParsedQuery_Name q) = Some cu
          \<and> Name c = ParsedQuery_Name q \<and> Fields c = modifiedQueryFields cu q)
   \<and> (\<forall>c \<in> set (Added (diffPolicies current proposed))
           \<union> set (Modified (diffPolicies current proposed))
           \<union> set (Added (diffQueries currentQ proposedQ))
           \<union> set (Modified (diffQueries currentQ proposedQ)).
        storedNormalized (Fields c))"
proof -
  have "storedNormalized (Fields c)" if "c \<in> set (Added (diffPolicies current proposed))" for c
    using diffPolicies_entries [of current proposed] that storedNormalized_addedPolicy by fastforce
  moreover have "storedNormalized (Fields c)" if "c \<in> set (Modified (diffPolicies current proposed))" for c
    using diffPolicies_entries [of current proposed] that storedNormalized_modifiedPolicy by fastforce
  moreover have "storedNormalized (Fields c)" if "c \<in> set (Added (diffQueries currentQ proposedQ))" for c
    using diffQueries_entries [of currentQ proposedQ] that storedNormalized_addedQuery by fastforce
  moreover have "storedNormalized (Fields c)" if "c \<in> set (Modified (diffQueries currentQ proposedQ))" for c
    using diffQueries_entries [of currentQ proposedQ] that storedNormalized_modifiedQuery by fastforce
  ultimately have st: "\<forall>c \<in> set (Added (diffPolicies current proposed))
           \<union> set (Modified (diffPolicies current proposed))
           \<union> set (Added (diffQueries currentQ proposedQ))
           \<union> set (Modified (diffQueries currentQ proposedQ)). storedNormalized (Fields c)"
    by blast
  note pe = diffPolicies_entries [of current proposed, THEN conjunct2]
  note qe = diffQueries_entries [of currentQ proposedQ, THEN conjunct2]
  show ?thesis
  proof (intro conjI impI)
    show "\<forall>c \<in> set (Modified (diffPolicies current proposed)).
        \<exists>p \<in> set proposed. \<exists>cu. policyIndex current (ParsedPolicy_Name p) = Some cu
          \<and> Name c = ParsedPolicy_Name p \<and> Fields c = modifiedPolicyFields cu p"
      by (rule pe)
    show "\<forall>c \<in> set (Modified (diffQueries currentQ proposedQ)).
        \<exists>q \<in> set proposedQ. \<exists>cu. queryIndex currentQ (ParsedQuery_Name q) = Some cu
          \<and> Name c = ParsedQuery_Name q \<and> Fields c = modifiedQueryFields cu q"
      by (rule qe)
    show "\<forall>c \<in> set (Added (diffPolicies current proposed))
           \<union> set (Modified (diffPolicies current proposed))
           \<union> set (Added (diffQueries currentQ proposedQ))
           \<union> set (Modified (diffQueries currentQ proposedQ)). storedNormalized (Fields c)"
      by (rule st)
  qed (simp_all add: policy_no_field query_no_field)
qed

lemma diffPolicies_single_match:
  "Policy_Name c = ParsedPolicy_Name p \<Longrightarrow>
     Modified (diffPolicies [c] [p]) =
       (if modifiedPolicyFields c p \<noteq> []
        then [\<lparr>Name = ParsedPolicy_Name p, Fields = modifiedPolicyFields c p,
                HostCount = Policy_PassingHostCount c + Policy_FailingHostCount c,
                Warning = []\<rparr>]
        else [])"
  by (simp add: diffPolicies_def policyDeleteStep_def policyStep_def policyIndex_def
      emptyDiff_def Let_def)

theorem whitespace_normalization_witness:
  "wsWords ''SELECT 1;'' = wsWords (''SELECT   1;'' @ [CHR 0x0A])
   \<and> ''query'' \<notin> fst ` set (modifiedPolicyFields (policyLit ''X'' ''SELECT 1;'')
        (parsedPolicyLit ''X'' (''SELECT   1;'' @ [CHR 0x0A])))
   \<and> wsWords ''SELECT 1;'' = wsWords '' SELECT 1; ''
   \<and> ''query'' \<notin> fst ` set (modifiedQueryFields (queryLit ''Q'' ''SELECT 1;'')
        (parsedQueryLit ''Q'' '' SELECT 1; ''))
   \<and> \<lparr>Name = ''X'', Fields = [(''query'', \<lparr>Old = ''SELECT 1;'', New = ''SELECT 2;''\<rparr>)],
        HostCount = 0, Warning = []\<rparr>
      \<in> set (Modified (diffPolicies [policyLit ''X'' ''SELECT  1;'']
            [parsedPolicyLit ''X'' '' SELECT 2; '']))
   \<and> storedNormalized [(''query'', \<lparr>Old = ''SELECT 1;'', New = ''SELECT 2;''\<rparr>)]"
proof -
  let ?cur = "policyLit ''X'' ''SELECT 1;''"
  let ?p = "parsedPolicyLit ''X'' (''SELECT   1;'' @ [CHR 0x0A])"
  let ?qc = "queryLit ''Q'' ''SELECT 1;''"
  let ?q = "parsedQueryLit ''Q'' '' SELECT 1; ''"
  let ?c2 = "policyLit ''X'' ''SELECT  1;''"
  let ?p2 = "parsedPolicyLit ''X'' '' SELECT 2; ''"
  let ?e = "\<lparr>Name = ''X'', Fields = [(''query'', \<lparr>Old = ''SELECT 1;'', New = ''SELECT 2;''\<rparr>)],
        HostCount = 0, Warning = []\<rparr>"
  note w = whitespace_normalization [of ?cur ?p ?qc ?q "[?c2]" "[?p2]" "[]" "[]"]
  have h1: "wsWords ''SELECT 1;'' = wsWords (''SELECT   1;'' @ [CHR 0x0A])" by code_simp
  have h2: "wsWords ''SELECT 1;'' = wsWords '' SELECT 1; ''" by code_simp
  have pq: "Policy_Query ?cur = ''SELECT 1;''" "ParsedPolicy_Query ?p = ''SELECT   1;'' @ [CHR 0x0A]"
    "Query_Query ?qc = ''SELECT 1;''" "ParsedQuery_Query ?q = '' SELECT 1; ''"
    by (simp_all add: policyLit_def parsedPolicyLit_def queryLit_def parsedQueryLit_def)
  from w have c1: "wsWords (Policy_Query ?cur) = wsWords (ParsedPolicy_Query ?p) \<longrightarrow>
      ''query'' \<notin> fst ` set (modifiedPolicyFields ?cur ?p)" by (elim conjE)
  from w have c4: "wsWords (Query_Query ?qc) = wsWords (ParsedQuery_Query ?q) \<longrightarrow>
      ''query'' \<notin> fst ` set (modifiedQueryFields ?qc ?q)" by (elim conjE)
  from w have c7: "\<forall>c \<in> set (Added (diffPolicies [?c2] [?p2]))
           \<union> set (Modified (diffPolicies [?c2] [?p2]))
           \<union> set (Added (diffQueries [] []))
           \<union> set (Modified (diffQueries [] [])). storedNormalized (Fields c)" by (elim conjE)
  have n1: "normalizeWS ''SELECT  1;'' = ''SELECT 1;''" by code_simp
  have n2: "normalizeWS '' SELECT 2; '' = ''SELECT 2;''" by code_simp
  have n0: "normalizeWS [] = []" by code_simp
  have f: "modifiedPolicyFields ?c2 ?p2 = [(''query'', \<lparr>Old = ''SELECT 1;'', New = ''SELECT 2;''\<rparr>)]"
    by (simp add: modifiedPolicyFields_def policyLit_def parsedPolicyLit_def n1 n2 n0)
  have nm: "Policy_Name ?c2 = ParsedPolicy_Name ?p2" "ParsedPolicy_Name ?p2 = ''X''"
    "Policy_PassingHostCount ?c2 + Policy_FailingHostCount ?c2 = 0"
    by (simp_all add: policyLit_def parsedPolicyLit_def)
  have m: "Modified (diffPolicies [?c2] [?p2]) = [?e]"
    unfolding diffPolicies_single_match [OF nm(1)] f nm(2,3) by simp
  have mem: "?e \<in> set (Modified (diffPolicies [?c2] [?p2]))" unfolding m by simp
  have st: "storedNormalized (Fields ?e)" using c7 mem by blast
  have r1: "''query'' \<notin> fst ` set (modifiedPolicyFields ?cur ?p)" using c1 h1 unfolding pq by blast
  have r4: "''query'' \<notin> fst ` set (modifiedQueryFields ?qc ?q)" using c4 h2 unfolding pq by blast
  from st have st': "storedNormalized [(''query'', \<lparr>Old = ''SELECT 1;'', New = ''SELECT 2;''\<rparr>)]"
    by simp
  show ?thesis using h1 h2 r1 r4 mem st' by (intro conjI)
qed

lemma sectionChanges_entries:
  "c \<in> set (sectionChanges apiConfig section m) \<Longrightarrow>
     \<not> containsEnvVar (ConfigChange_New c) \<and> ConfigChange_Section c = section
     \<and> (ConfigChange_Key c, ConfigChange_New c) \<in> set (flattenMap m [])"
  by (auto simp: sectionChanges_def Let_def split: option.splits if_splits)

lemma diffConfig_entries:
  assumes "c \<in> set (diffConfig apiConfig g)"
  shows "\<not> containsEnvVar (ConfigChange_New c) \<and>
     (\<exists>m. (ConfigChange_Section c, Some m) \<in> set (proposedSections g)
        \<and> (ConfigChange_Key c, ConfigChange_New c) \<in> set (flattenMap m []))"
proof -
  from assms obtain sec m where sm: "(sec, Some m) \<in> set (proposedSections g)"
    and c: "c \<in> set (sectionChanges apiConfig sec m)"
    by (auto simp: diffConfig_def proposedSections_def split: option.splits)
  from sectionChanges_entries [OF c] sm show ?thesis by auto
qed

lemma Diff_Config:
  assumes "r \<in> set (Diff current proposed teamFilter)" and "c \<in> set (Config r)"
  shows "\<exists>cfg g. FleetState_Config current = Some cfg \<and> ParsedRepo_Global proposed = Some g
     \<and> c \<in> set (diffConfig cfg g)"
proof -
  have team: "Config (teamResult current lm ct pt) = []" for lm ct pt
    by (simp add: teamResult_def emptyResult_def Let_def split: option.splits)
  from assms(1) have "(\<exists>g. ParsedRepo_Global proposed = Some g \<and> r = globalResult current g)
      \<or> (\<exists>lm ct pt. r = teamResult current lm ct pt)"
  proof (cases "ParsedRepo_Global proposed")
    case None
    with assms(1) show ?thesis by (auto simp: Diff_def Let_def)
  next
    case (Some g)
    with assms(1) show ?thesis by (auto simp: Diff_def Let_def split: if_splits)
  qed
  then show ?thesis
  proof
    assume "\<exists>g. ParsedRepo_Global proposed = Some g \<and> r = globalResult current g"
    then obtain g where "ParsedRepo_Global proposed = Some g" "r = globalResult current g" by blast
    with assms(2) show ?thesis
      by (auto simp: globalResult_def emptyResult_def split: option.splits)
  next
    assume "\<exists>lm ct pt. r = teamResult current lm ct pt"
    with assms(2) team show ?thesis by auto
  qed
qed

text \<open>
  C9. Every config-change record in the output of \<open>Diff\<close> is a leaf of one of the
  proposed global sections, with the leaf's flattened key and value, and its value does not
  contain the placeholder marker \<open>$\<close>: a proposed leaf whose value contains the marker
  yields no record, whatever the remote value is. The same holds of \<open>diffConfig\<close> alone.
\<close>

theorem placeholder_skip:
  "(\<forall>r \<in> set (Diff current proposed teamFilter). \<forall>c \<in> set (Config r).
      \<not> containsEnvVar (ConfigChange_New c)
      \<and> (\<exists>g m. ParsedRepo_Global proposed = Some g
            \<and> (ConfigChange_Section c, Some m) \<in> set (proposedSections g)
            \<and> (ConfigChange_Key c, ConfigChange_New c) \<in> set (flattenMap m [])))
   \<and> (\<forall>c \<in> set (diffConfig apiConfig g'). \<not> containsEnvVar (ConfigChange_New c)
      \<and> (\<exists>m. (ConfigChange_Section c, Some m) \<in> set (proposedSections g')
            \<and> (ConfigChange_Key c, ConfigChange_New c) \<in> set (flattenMap m [])))"
proof (intro conjI ballI)
  fix r c
  assume "r \<in> set (Diff current proposed teamFilter)" and "c \<in> set (Config r)"
  from Diff_Config [OF this] obtain cfg g where g: "ParsedRepo_Global proposed = Some g"
    and c: "c \<in> set (diffConfig cfg g)" by blast
  from diffConfig_entries [OF c] g
  show "\<exists>g m. ParsedRepo_Global proposed = Some g
            \<and> (ConfigChange_Section c, Some m) \<in> set (proposedSections g)
            \<and> (ConfigChange_Key c, ConfigChange_New c) \<in> set (flattenMap m [])" by blast
  from diffConfig_entries [OF c] show "\<not> containsEnvVar (ConfigChange_New c)" by blast
next
  fix c assume c: "c \<in> set (diffConfig apiConfig g')"
  from diffConfig_entries [OF c] show "\<not> containsEnvVar (ConfigChange_New c)" by blast
  from diffConfig_entries [OF c]
  show "\<exists>m. (ConfigChange_Section c, Some m) \<in> set (proposedSections g')
            \<and> (ConfigChange_Key c, ConfigChange_New c) \<in> set (flattenMap m [])" by blast
qed

lemma exampleConfig_diff:
  "diffConfig exampleApiConfig exampleGlobal =
     [\<lparr>ConfigChange_Section = ''org_settings'', ConfigChange_Key = ''org_info.org_name'',
       ConfigChange_Old = ''Old Corp'', ConfigChange_New = ''New Corp''\<rparr>]"
  by (simp add: diffConfig_def sectionChanges_def apiSectionOf_def exampleApiConfig_def
      exampleGlobal_def containsEnvVar_def Contains_def HasPrefix_def getNestedValue_def)

lemma exampleState_fields:
  "FleetState_Teams exampleState = [workstationsRemote]"
  "FleetState_Labels exampleState = []"
  "FleetState_FleetMaintainedCatalog exampleState = []"
  "FleetState_Config exampleState = Some exampleApiConfig"
  "FleetState_GlobalPolicies exampleState = []"
  "FleetState_GlobalQueries exampleState = []"
  by (simp_all add: exampleState_def)

lemma exampleRepo_fields:
  "ParsedRepo_Teams exampleRepo = [workstationsProposed, mobileProposed]"
  "ParsedRepo_Global exampleRepo = Some exampleGlobal"
  by (simp_all add: exampleRepo_def)

lemma Diff_example:
  "Diff exampleState exampleRepo [] =
     [globalResult exampleState exampleGlobal,
      teamResult exampleState (labelIndex []) (teamIndex [workstationsRemote]) workstationsProposed,
      teamResult exampleState (labelIndex []) (teamIndex [workstationsRemote]) mobileProposed]"
  by (simp add: Diff_def Let_def exampleState_fields exampleRepo_fields)

lemma teamIndex_example:
  "teamIndex [workstationsRemote] ''Workstations'' = Some workstationsRemote"
  "teamIndex [workstationsRemote] ''Mobile'' = None"
  by (simp_all add: teamIndex_def workstationsRemote_def)

theorem placeholder_skip_witness:
  "(''smtp_settings.password'', ''$SMTP_PASSWORD'')
     \<in> set (flattenMap (the (ParsedGlobal_OrgSettings exampleGlobal)) [])
   \<and> containsEnvVar ''$SMTP_PASSWORD''
   \<and> globalResult exampleState exampleGlobal \<in> set (Diff exampleState exampleRepo [])
   \<and> Config (globalResult exampleState exampleGlobal) =
       [\<lparr>ConfigChange_Section = ''org_settings'', ConfigChange_Key = ''org_info.org_name'',
         ConfigChange_Old = ''Old Corp'', ConfigChange_New = ''New Corp''\<rparr>]
   \<and> \<not> containsEnvVar ''New Corp''"
proof -
  let ?c = "\<lparr>ConfigChange_Section = ''org_settings'', ConfigChange_Key = ''org_info.org_name'',
         ConfigChange_Old = ''Old Corp'', ConfigChange_New = ''New Corp''\<rparr>"
  note w = placeholder_skip [of exampleState exampleRepo "[]" exampleApiConfig exampleGlobal]
  have leaf: "(''smtp_settings.password'', ''$SMTP_PASSWORD'')
     \<in> set (flattenMap (the (ParsedGlobal_OrgSettings exampleGlobal)) [])"
    by (simp add: exampleGlobal_def)
  have env: "containsEnvVar ''$SMTP_PASSWORD''"
    by (simp add: containsEnvVar_def Contains_def HasPrefix_def)
  have mem: "globalResult exampleState exampleGlobal \<in> set (Diff exampleState exampleRepo [])"
    by (simp add: Diff_example)
  have cfg: "Config (globalResult exampleState exampleGlobal) = [?c]"
    by (simp add: globalResult_def exampleState_fields exampleConfig_diff)
  from w have "\<forall>r \<in> set (Diff exampleState exampleRepo []). \<forall>c \<in> set (Config r).
      \<not> containsEnvVar (ConfigChange_New c)" by blast
  with mem have "\<forall>c \<in> set (Config (globalResult exampleState exampleGlobal)).
      \<not> containsEnvVar (ConfigChange_New c)" by blast
  then have "\<not> containsEnvVar (ConfigChange_New ?c)" unfolding cfg by simp
  then have "\<not> containsEnvVar ''New Corp''" by simp
  with leaf env mem cfg show ?thesis by (intro conjI)
qed

subsection \<open>C3: the order of the entries\<close>

lemma diffSoftware_sorted:
  "sorted (map Name (Added (diffSoftware cs ps)))"
  "sorted (map Name (Modified (diffSoftware cs ps)))"
  "sorted (map Name (Deleted (diffSoftware cs ps)))"
  by (simp_all add: diffSoftware_def sortResourceChanges_def Let_def)

text \<open>
  C3 (as amended). The entries of every bucket of the software diff are sorted by name
  ascending before the diff is returned. The buckets of the policy, query and profile
  diffs are not sorted: their Added and Modified entries follow the order of the proposed
  list and their Deleted entries follow the order of the remote list, so no map iteration
  order reaches them either.
\<close>

theorem bucket_order:
  "sorted (map Name (Added (diffSoftware cs ps)))
   \<and> sorted (map Name (Modified (diffSoftware cs ps)))
   \<and> sorted (map Name (Deleted (diffSoftware cs ps)))
   \<and> map Name (Added (diffPolicies current proposed)) =
       filter (\<lambda>n. n \<notin> Policy_Name ` set current) (map ParsedPolicy_Name proposed)
   \<and> map Name (Modified (diffPolicies current proposed)) =
       map ParsedPolicy_Name
         (filter (\<lambda>p. case policyIndex current (ParsedPolicy_Name p) of None \<Rightarrow> False
                       | Some c \<Rightarrow> modifiedPolicyFields c p \<noteq> []) proposed)
   \<and> map Name (Deleted (diffPolicies current proposed)) =
       filter (\<lambda>n. n \<notin> ParsedPolicy_Name ` set proposed) (map Policy_Name current)
   \<and> map Name (Added (diffQueries currentQ proposedQ)) =
       filter (\<lambda>n. n \<notin> Query_Name ` set currentQ) (map ParsedQuery_Name proposedQ)
   \<and> map Name (Modified (diffQueries currentQ proposedQ)) =
       map ParsedQuery_Name
         (filter (\<lambda>q. case queryIndex currentQ (ParsedQuery_Name q) of None \<Rightarrow> False
                       | Some c \<Rightarrow> modifiedQueryFields c q \<noteq> []) proposedQ)
   \<and> map Name (Deleted (diffQueries currentQ proposedQ)) =
       filter (\<lambda>n. n \<notin> ParsedQuery_Name ` set proposedQ) (map Query_Name currentQ)
   \<and> map Name (Added (fst (diffProfiles currentP proposedP))) =
       filter (\<lambda>n. n \<notin> Profile_Name ` set currentP) (map ParsedProfile_Name proposedP)
   \<and> Modified (fst (diffProfiles currentP proposedP)) = []
   \<and> map Name (Deleted (fst (diffProfiles currentP proposedP))) =
       filter (\<lambda>n. n \<notin> ParsedProfile_Name ` set proposedP) (map Profile_Name currentP)"
  by (intro conjI diffSoftware_sorted diffPolicies_Added_names diffPolicies_Modified_names
      diffPolicies_Deleted_names diffQueries_Added_names diffQueries_Modified_names
      diffQueries_Deleted_names diffProfiles_names)

text \<open>Two policies declared in the order B, A are reported as Added in that order.\<close>

theorem bucket_order_counterexample:
  "\<not> sorted (map Name (Added (diffPolicies []
        [parsedPolicyLit ''B'' ''SELECT 1;'', parsedPolicyLit ''A'' ''SELECT 1;''])))"
proof -
  have "map Name (Added (diffPolicies []
        [parsedPolicyLit ''B'' ''SELECT 1;'', parsedPolicyLit ''A'' ''SELECT 1;''])) = [''B'', ''A'']"
    by (simp add: diffPolicies_Added_names parsedPolicyLit_def)
  then show ?thesis by simp
qed

lemma normalizeSoftwarePath_examples:
  "normalizeSoftwarePath ''zoom/darwin'' = ''zoom/darwin''"
  "normalizeSoftwarePath ''slack/darwin'' = ''slack/darwin''"
  by code_simp+

lemma exampleSoftware_Added:
  "map Name (Added (diffSoftware exampleRemoteSoftware exampleProposedSoftware)) =
     [''fleet app slack/darwin'', ''fleet app zoom/darwin'']"
  by (simp add: diffSoftware_def sortResourceChanges_def Let_def exampleRemoteSoftware_def
      exampleProposedSoftware_def indexBy_def sliceOf_def emptyDiff_def fleetStep_def
      normalizeSoftwarePath_examples change_def)

theorem bucket_order_witness:
  "map Name (Added (diffSoftware exampleRemoteSoftware exampleProposedSoftware)) =
     [''fleet app slack/darwin'', ''fleet app zoom/darwin'']
   \<and> sorted [''fleet app slack/darwin'', ''fleet app zoom/darwin'']
   \<and> map Name (Added (diffPolicies []
        [parsedPolicyLit ''B'' ''SELECT 1;'', parsedPolicyLit ''A'' ''SELECT 1;''])) = [''B'', ''A'']"
proof -
  note w = bucket_order [of exampleRemoteSoftware exampleProposedSoftware "[]"
      "[parsedPolicyLit ''B'' ''SELECT 1;'', parsedPolicyLit ''A'' ''SELECT 1;'']" "[]" "[]" "[]" "[]"]
  note s = w [THEN conjunct1]
  note p = w [THEN conjunct2, THEN conjunct2, THEN conjunct2, THEN conjunct1]
  have p': "map Name (Added (diffPolicies []
        [parsedPolicyLit ''B'' ''SELECT 1;'', parsedPolicyLit ''A'' ''SELECT 1;''])) = [''B'', ''A'']"
    unfolding p by (simp add: parsedPolicyLit_def)
  from s have "sorted [''fleet app slack/darwin'', ''fleet app zoom/darwin'']"
    unfolding exampleSoftware_Added .
  with exampleSoftware_Added p' show ?thesis by (intro conjI)
qed

subsection \<open>The result for one team\<close>

lemma teamResult_new:
  assumes "currentTeams (ParsedTeam_Name pt) = None"
    and "\<not> EqualFold (ParsedTeam_Name pt) ''No team''"
  shows "Policies (teamResult current labelMap currentTeams pt) =
           \<lparr>Added = map (\<lambda>p. change (ParsedPolicy_Name p) []) (ParsedTeam_Policies pt),
            Modified = [], Deleted = []\<rparr>"
    and "Queries (teamResult current labelMap currentTeams pt) =
           \<lparr>Added = map (\<lambda>q. change (ParsedQuery_Name q) []) (ParsedTeam_Queries pt),
            Modified = [], Deleted = []\<rparr>"
    and "Software (teamResult current labelMap currentTeams pt) = emptyDiff"
    and "Profiles (teamResult current labelMap currentTeams pt) = emptyDiff"
    and "Errors (teamResult current labelMap currentTeams pt) =
           [InfoTeamMissing (ParsedTeam_Name pt)]"
  using assms by (simp_all add: teamResult_def emptyResult_def emptyDiff_def Let_def)



subsection \<open>C2: a group that the remote side does not have\<close>

text \<open>
  C2, at the team Mobile of the small repository, which the remote snapshot does not
  have: its policy and its query are Added and the one message says that the team does not
  exist yet, but its declared profile and its declared fleet-maintained app are in no
  bucket: the profile and software diffs of the result are empty.
\<close>

theorem new_team_omits_software_and_profiles:
  "teamResult exampleState (labelIndex []) (teamIndex [workstationsRemote]) mobileProposed
     \<in> set (Diff exampleState exampleRepo [])
   \<and> teamIndex [workstationsRemote] (ParsedTeam_Name mobileProposed) = None
   \<and> \<not> EqualFold (ParsedTeam_Name mobileProposed) ''No team''
   \<and> map ParsedProfile_Name (ParsedTeam_Profiles mobileProposed) = [''wifi'']
   \<and> map ParsedFleetApp_Slug (ParsedSoftware_FleetMaintained (ParsedTeam_Software mobileProposed))
       = [''zoom/darwin'']
   \<and> map Name (Added (Policies
        (teamResult exampleState (labelIndex []) (teamIndex [workstationsRemote]) mobileProposed)))
       = [''Passcode'']
   \<and> map Name (Added (Queries
        (teamResult exampleState (labelIndex []) (teamIndex [workstationsRemote]) mobileProposed)))
       = [''Battery'']
   \<and> Errors (teamResult exampleState (labelIndex []) (teamIndex [workstationsRemote]) mobileProposed)
       = [InfoTeamMissing ''Mobile'']
   \<and> Profiles (teamResult exampleState (labelIndex []) (teamIndex [workstationsRemote]) mobileProposed)
       = emptyDiff
   \<and> Software (teamResult exampleState (labelIndex []) (teamIndex [workstationsRemote]) mobileProposed)
       = emptyDiff"
proof -
  have nm: "ParsedTeam_Name mobileProposed = ''Mobile''"
    and ps: "ParsedTeam_Policies mobileProposed = [parsedPolicyLit ''Passcode'' ''SELECT 1;'']"
    and qs: "ParsedTeam_Queries mobileProposed = [parsedQueryLit ''Battery'' ''SELECT 2;'']"
    by (simp_all add: mobileProposed_def)
  have none: "teamIndex [workstationsRemote] (ParsedTeam_Name mobileProposed) = None"
    unfolding nm by (rule teamIndex_example)
  have nf: "\<not> EqualFold (ParsedTeam_Name mobileProposed) ''No team''"
    unfolding nm by code_simp
  note r = teamResult_new [where currentTeams = "teamIndex [workstationsRemote]"
      and pt = mobileProposed and current = exampleState and labelMap = "labelIndex []",
      OF none nf]
  have mem: "teamResult exampleState (labelIndex []) (teamIndex [workstationsRemote]) mobileProposed
     \<in> set (Diff exampleState exampleRepo [])"
    by (simp add: Diff_example)
  have pr: "map ParsedProfile_Name (ParsedTeam_Profiles mobileProposed) = [''wifi'']"
    and sl: "map ParsedFleetApp_Slug
      (ParsedSoftware_FleetMaintained (ParsedTeam_Software mobileProposed)) = [''zoom/darwin'']"
    by (simp_all add: mobileProposed_def)
  have pa: "map Name (Added (Policies
        (teamResult exampleState (labelIndex []) (teamIndex [workstationsRemote]) mobileProposed)))
       = [''Passcode'']"
    unfolding r(1) ps by (simp add: change_def parsedPolicyLit_def)
  have qa: "map Name (Added (Queries
        (teamResult exampleState (labelIndex []) (teamIndex [workstationsRemote]) mobileProposed)))
       = [''Battery'']"
    unfolding r(2) qs by (simp add: change_def parsedQueryLit_def)
  have er: "Errors (teamResult exampleState (labelIndex []) (teamIndex [workstationsRemote])
      mobileProposed) = [InfoTeamMissing ''Mobile'']"
    unfolding r(5) nm ..
  show ?thesis using mem none nf pr sl pa qa er r(4) r(3) by (intro conjI)
qed
















end
